theory Spec2Isabelle
  imports
    Main
    "HOL-Library.Char_ord"
    "HOL-Library.List_Lexorder"
    "HOL-Library.Product_Lexorder"
    "HOL-Library.Multiset"
begin

section \<open>The weekly planner of task_manager.py\<close>

text \<open>
  A shallow embedding of the scheduling core of \<^verbatim>\<open>src/task_manager.py\<close>: the time
  block and its overlap test, the busy-slot grid, the scheduling context, the parser of
  the service's response, the conflict detector, schedule generation and the reminder
  loop. Python strings are \<open>string\<close> (characters \<open>0..255\<close>, so the only decimal digits
  are the ASCII ones), Python integers are \<open>int\<close>, exceptions are values of \<open>py_error\<close>
  on the left of a sum.
\<close>

subsection \<open>Exceptions\<close>

datatype py_error = KeyError | ValueError

subsection \<open>Data model\<close>

definition WEEKDAYS :: "string list" where
  "WEEKDAYS = [''Monday'', ''Tuesday'', ''Wednesday'', ''Thursday'', ''Friday'',
     ''Saturday'', ''Sunday'']"

text \<open>
  \<^verbatim>\<open>@dataclass class Task\<close>. The duration is a Python float that the program only
  stores and copies, so its type is left open as \<open>'f\<close>.
\<close>

record 'f task =
  task_name :: string
  duration_hours :: 'f
  task_difficulty :: string
  task_notes :: string
  goal :: "string option"

text \<open>\<^verbatim>\<open>@dataclass class Goal\<close>.\<close>

record goal_rec =
  goal_name :: string
  goal_difficulty :: string
  goal_notes :: string

text \<open>\<^verbatim>\<open>@dataclass class TimeBlock\<close>; \<open>start_time\<close> is commented "HH:MM format".\<close>

record time_block =
  title :: string
  day :: string
  start_time :: string
  end_time :: string
  details :: string

subsection \<open>\<^verbatim>\<open>datetime.strptime(s, "%H:%M")\<close>\<close>

text \<open>
  The library compiles the format to the regular expression
  \<^verbatim>\<open>(?P<H>2[0-3]|[0-1]\d|\d):(?P<M>[0-5]\d|\d)\<close>, matches it at the start of the
  string and raises \<^verbatim>\<open>ValueError\<close> when it does not match or when text remains.
  So the accepted strings are: one or two digits of value at most 23, a colon, one or two
  digits of value at most 59. The result is \<^verbatim>\<open>datetime(1900, 1, 1, H, M)\<close>; two such
  values compare as their minutes since midnight, which is what the model returns.
\<close>

definition is_digit :: "char \<Rightarrow> bool" where
  "is_digit c = (c \<in> set ''0123456789'')"

definition digit_val :: "char \<Rightarrow> nat" where
  "digit_val c = of_char c - 48"

fun dec2 :: "string \<Rightarrow> nat option" where
  "dec2 [a] = (if is_digit a then Some (digit_val a) else None)"
| "dec2 [a, b] =
     (if is_digit a \<and> is_digit b then Some (10 * digit_val a + digit_val b) else None)"
| "dec2 _ = None"

definition strptime_HM :: "string \<Rightarrow> py_error + nat" where
  "strptime_HM s =
     (case dropWhile (\<lambda>c. c \<noteq> CHR '':'') s of
        [] \<Rightarrow> Inl ValueError
      | _ # ms \<Rightarrow>
          (case (dec2 (takeWhile (\<lambda>c. c \<noteq> CHR '':'') s), dec2 ms) of
             (Some h, Some m) \<Rightarrow>
               if h \<le> 23 \<and> m \<le> 59 then Inr (60 * h + m) else Inl ValueError
           | _ \<Rightarrow> Inl ValueError))"

subsection \<open>\<^verbatim>\<open>TimeBlock.overlaps\<close>\<close>

text \<open>
  The weekday test comes first and returns without parsing; the four fields are then
  parsed in the source's order, and the first failure is the exception raised.
\<close>

definition overlaps :: "time_block \<Rightarrow> time_block \<Rightarrow> py_error + bool" where
  "overlaps self other =
     (if day self \<noteq> day other then Inr False
      else
        (case strptime_HM (start_time self) of
           Inl e \<Rightarrow> Inl e
         | Inr start_a \<Rightarrow>
             (case strptime_HM (end_time self) of
                Inl e \<Rightarrow> Inl e
              | Inr end_a \<Rightarrow>
                  (case strptime_HM (start_time other) of
                     Inl e \<Rightarrow> Inl e
                   | Inr start_b \<Rightarrow>
                       (case strptime_HM (end_time other) of
                          Inl e \<Rightarrow> Inl e
                        | Inr end_b \<Rightarrow> Inr (start_a < end_b \<and> start_b < end_a))))))"

subsection \<open>\<^verbatim>\<open>TaskManagerApp._parse_schedule\<close>\<close>

text \<open>
  The response is typed as the interface gives it: under the key \<^verbatim>\<open>"days"\<close> a
  dictionary from day names to lists of entries, an entry being a dictionary from field
  names to strings. The dictionary of days is an association list in insertion order (the
  order \<^verbatim>\<open>days.items()\<close> iterates in); \<open>None\<close> is a response without the key
  \<^verbatim>\<open>"days"\<close>, for which \<^verbatim>\<open>schedule.get("days", {})\<close> is the empty dictionary.
\<close>

type_synonym entry = "string \<rightharpoonup> string"

type_synonym days_dict = "(string \<times> entry list) list"

type_synonym schedule = "days_dict option"

text \<open>
  The body of the \<^verbatim>\<open>try\<close>: the subscripts \<^verbatim>\<open>entry["title"]\<close>,
  \<^verbatim>\<open>entry["start"]\<close>, \<^verbatim>\<open>entry["end"]\<close> raise \<^verbatim>\<open>KeyError\<close> in this
  order, \<^verbatim>\<open>entry.get("details", "")\<close> does not.
\<close>

definition entry_block :: "string \<Rightarrow> entry \<Rightarrow> py_error + time_block" where
  "entry_block d e =
     (case e ''title'' of
        None \<Rightarrow> Inl KeyError
      | Some t \<Rightarrow>
          (case e ''start'' of
             None \<Rightarrow> Inl KeyError
           | Some s \<Rightarrow>
               (case e ''end'' of
                  None \<Rightarrow> Inl KeyError
                | Some en \<Rightarrow>
                    Inr \<lparr>title = t, day = d, start_time = s, end_time = en,
                      details = (case e ''details'' of None \<Rightarrow> [] | Some x \<Rightarrow> x)\<rparr>)))"

text \<open>The inner loop: \<^verbatim>\<open>except KeyError: continue\<close> skips the entry.\<close>

fun parse_entries :: "string \<Rightarrow> entry list \<Rightarrow> time_block list \<Rightarrow> time_block list" where
  "parse_entries d [] blocks = blocks"
| "parse_entries d (e # es) blocks =
     (case entry_block d e of
        Inl err \<Rightarrow> parse_entries d es blocks
      | Inr block \<Rightarrow> parse_entries d es (blocks @ [block]))"

text \<open>The outer loop: \<^verbatim>\<open>if day not in WEEKDAYS: continue\<close>.\<close>

fun parse_days :: "days_dict \<Rightarrow> time_block list \<Rightarrow> time_block list" where
  "parse_days [] blocks = blocks"
| "parse_days ((d, entries) # rest) blocks =
     (if d \<notin> set WEEKDAYS then parse_days rest blocks
      else parse_days rest (parse_entries d entries blocks))"

text \<open>\<^verbatim>\<open>list.index\<close>: the first position of the value, \<^verbatim>\<open>ValueError\<close> when absent.\<close>

fun index_of :: "'a list \<Rightarrow> 'a \<Rightarrow> py_error + nat" where
  "index_of [] x = Inl ValueError"
| "index_of (y # ys) x =
     (if y = x then Inr 0
      else (case index_of ys x of Inl e \<Rightarrow> Inl e | Inr i \<Rightarrow> Inr (Suc i)))"

text \<open>
  \<^verbatim>\<open>sorted(xs, key=f)\<close> computes the key of every element first (the first exception
  is raised), then sorts stably by the keys. Tuples and strings compare
  lexicographically, strings by character code.
\<close>

fun collect :: "('e + 'a) list \<Rightarrow> 'e + 'a list" where
  "collect [] = Inr []"
| "collect (r # rs) =
     (case r of
        Inl e \<Rightarrow> Inl e
      | Inr x \<Rightarrow> (case collect rs of Inl e \<Rightarrow> Inl e | Inr xs \<Rightarrow> Inr (x # xs)))"

definition py_sorted :: "('a \<Rightarrow> py_error + 'k::linorder) \<Rightarrow> 'a list \<Rightarrow> py_error + 'a list" where
  "py_sorted key xs =
     (case collect (map key xs) of
        Inl e \<Rightarrow> Inl e
      | Inr ks \<Rightarrow> Inr (map snd (sort_key fst (zip ks xs))))"

text \<open>The key \<^verbatim>\<open>lambda b: (WEEKDAYS.index(b.day), b.start_time)\<close>.\<close>

definition block_key :: "time_block \<Rightarrow> py_error + (nat \<times> string)" where
  "block_key b =
     (case index_of WEEKDAYS (day b) of Inl e \<Rightarrow> Inl e | Inr i \<Rightarrow> Inr (i, start_time b))"

definition parse_schedule :: "schedule \<Rightarrow> py_error + time_block list" where
  "parse_schedule sched =
     py_sorted block_key (parse_days (case sched of None \<Rightarrow> [] | Some days \<Rightarrow> days) [])"

subsection \<open>The busy-slot grid and its snapshot\<close>

text \<open>
  \<^verbatim>\<open>self.busy_slots\<close> is a dictionary from day names to lists of
  \<open>(hour, duration)\<close> pairs. It is created with the keys \<open>WEEKDAYS\<close>, in that order,
  and no key is ever added or removed, so it is represented by its lookup function on
  those keys: \<^verbatim>\<open>busy_slots.items()\<close> is the list of \<open>(d, busy_slots d)\<close> for
  \<open>d\<close> in \<open>WEEKDAYS\<close>, and a subscript with another key raises \<^verbatim>\<open>KeyError\<close>.
\<close>

type_synonym busy_grid = "string \<Rightarrow> (int \<times> int) list"

text \<open>
  The format specification \<^verbatim>\<open>{n:02d}\<close>: decimal digits, padded with zeros to
  two characters, the sign counting as a character.
\<close>

fun digits10 :: "nat \<Rightarrow> string" where
  "digits10 n =
     (if n < 10 then [''0123456789'' ! n]
      else digits10 (n div 10) @ [''0123456789'' ! (n mod 10)])"

declare digits10.simps [simp del]

definition fmt_02d :: "int \<Rightarrow> string" where
  "fmt_02d n =
     (if n < 0 then CHR ''-'' # digits10 (nat (- n))
      else if n < 10 then CHR ''0'' # digits10 (nat n)
      else digits10 (nat n))"

text \<open>An element \<^verbatim>\<open>{"start": ..., "end": ..., "title": "Busy"}\<close> of the snapshot.\<close>

record busy_entry =
  be_start :: string
  be_end :: string
  be_title :: string

definition slot_entry :: "int \<times> int \<Rightarrow> busy_entry" where
  "slot_entry slot =
     (case slot of (hour, duration) \<Rightarrow>
        \<lparr>be_start = fmt_02d hour @ '':00'',
         be_end = fmt_02d (hour + duration) @ '':00'',
         be_title = ''Busy''\<rparr>)"

text \<open>
  \<^verbatim>\<open>_build_busy_context\<close>: a dictionary with the keys \<open>WEEKDAYS\<close>, each day's list
  filled in the order of that day's slots.
\<close>

definition build_busy_context :: "busy_grid \<Rightarrow> (string \<times> busy_entry list) list" where
  "build_busy_context grid = map (\<lambda>d. (d, map slot_entry (grid d))) WEEKDAYS"

subsection \<open>\<^verbatim>\<open>TaskManagerApp._find_conflicts\<close>\<close>

definition busy_blocks :: "busy_grid \<Rightarrow> time_block list" where
  "busy_blocks grid =
     concat (map (\<lambda>(d, slots).
        map (\<lambda>slot. \<lparr>title = ''Busy'', day = d, start_time = be_start slot,
                      end_time = be_end slot, details = []\<rparr>) slots)
       (build_busy_context grid))"

definition conflict_message :: "time_block \<Rightarrow> string" where
  "conflict_message block =
     title block @ '' on '' @ day block @ '' '' @ start_time block @ ''-'' @
     end_time block @ '' overlaps busy time.''"

text \<open>The inner loop over the busy blocks; an exception of \<open>overlaps\<close> ends it.\<close>

fun conflicts_with :: "time_block \<Rightarrow> time_block list \<Rightarrow> string list \<Rightarrow> py_error + string list" where
  "conflicts_with block [] messages = Inr messages"
| "conflicts_with block (busy # rest) messages =
     (case overlaps block busy of
        Inl e \<Rightarrow> Inl e
      | Inr hit \<Rightarrow>
          conflicts_with block rest
            (if hit then messages @ [conflict_message block] else messages))"

text \<open>The outer loop over the generated blocks.\<close>

fun conflicts_loop :: "time_block list \<Rightarrow> time_block list \<Rightarrow> string list \<Rightarrow> py_error + string list" where
  "conflicts_loop [] busy messages = Inr messages"
| "conflicts_loop (block # rest) busy messages =
     (case conflicts_with block busy messages of
        Inl e \<Rightarrow> Inl e
      | Inr messages' \<Rightarrow> conflicts_loop rest busy messages')"

definition find_conflicts :: "busy_grid \<Rightarrow> time_block list \<Rightarrow> py_error + string list" where
  "find_conflicts grid blocks = conflicts_loop blocks (busy_blocks grid) []"

subsection \<open>The application object\<close>

text \<open>
  The look of a cell of the availability grid: \<^verbatim>\<open>bg="white", relief=RAISED\<close> or
  \<^verbatim>\<open>bg="#444", relief=SUNKEN\<close>. The dictionary \<^verbatim>\<open>availability_buttons\<close> has the
  fixed keys \<open>(d, h)\<close> with \<open>d\<close> in \<open>WEEKDAYS\<close> and \<open>0 \<le> h < 24\<close>.
\<close>

datatype button_look = White_raised | Dark_sunken

record 'f app =
  gpt_available :: bool
  tasks :: "'f task list"
  goals :: "goal_rec list"
  busy_slots :: busy_grid
  generated_blocks :: "time_block list"
  reminder_alive :: bool
  stop_event :: bool
  availability_buttons :: "string \<times> int \<Rightarrow> button_look"
  schedule_text :: string
  start_reminders_enabled :: bool

subsection \<open>\<^verbatim>\<open>TaskManagerApp.toggle_busy\<close>\<close>

text \<open>
  The two subscripts \<^verbatim>\<open>availability_buttons[slot]\<close> and \<^verbatim>\<open>busy_slots[day]\<close>
  raise \<^verbatim>\<open>KeyError\<close> outside the grid. Inside, the day's list is filtered in place
  when the hour occurs in it, and extended by \<open>(hour, 1)\<close> otherwise.
\<close>

definition toggle_slots :: "int \<Rightarrow> (int \<times> int) list \<Rightarrow> (int \<times> int) list" where
  "toggle_slots hour busy_list =
     (if hour \<in> set (map fst busy_list) then filter (\<lambda>(h, dur). h \<noteq> hour) busy_list
      else busy_list @ [(hour, 1)])"

definition toggle_busy :: "string \<Rightarrow> int \<Rightarrow> 'f app \<Rightarrow> py_error + 'f app" where
  "toggle_busy d hour a =
     (if \<not> (d \<in> set WEEKDAYS \<and> 0 \<le> hour \<and> hour < 24) then Inl KeyError
      else Inr (a\<lparr>busy_slots := (busy_slots a)(d := toggle_slots hour (busy_slots a d)),
                   availability_buttons := (availability_buttons a)
                     ((d, hour) :=
                        (if hour \<in> set (map fst (busy_slots a d)) then White_raised
                         else Dark_sunken))\<rparr>))"

subsection \<open>\<^verbatim>\<open>TaskManagerApp._build_schedule_context\<close>\<close>

text \<open>
  Python dictionaries keep insertion order, so \<^verbatim>\<open>tasks_by_goal\<close> and
  \<^verbatim>\<open>goal_lookup\<close> are association lists with distinct keys:
  \<^verbatim>\<open>d.setdefault(k, []).append(v)\<close> extends the list of an existing key in its place
  and adds a new key at the end, \<^verbatim>\<open>d[k] = v\<close> (here through the dictionary
  comprehension) replaces the value of an existing key in its place.
\<close>

fun setdefault_append :: "'k \<Rightarrow> 'v \<Rightarrow> ('k \<times> 'v list) list \<Rightarrow> ('k \<times> 'v list) list" where
  "setdefault_append k v [] = [(k, [v])]"
| "setdefault_append k v ((k', vs) # rest) =
     (if k' = k then (k', vs @ [v]) # rest else (k', vs) # setdefault_append k v rest)"

fun dict_set :: "'k \<Rightarrow> 'v \<Rightarrow> ('k \<times> 'v) list \<Rightarrow> ('k \<times> 'v) list" where
  "dict_set k v [] = [(k, v)]"
| "dict_set k v ((k', v') # rest) =
     (if k' = k then (k', v) # rest else (k', v') # dict_set k v rest)"

text \<open>The dictionary a task contributes to its group.\<close>

record 'f task_summary =
  ts_name :: string
  ts_duration_hours :: 'f
  ts_difficulty :: string
  ts_notes :: string

definition summary_of :: "'f task \<Rightarrow> 'f task_summary" where
  "summary_of t =
     \<lparr>ts_name = task_name t, ts_duration_hours = duration_hours t,
      ts_difficulty = task_difficulty t, ts_notes = task_notes t\<rparr>"

text \<open>
  \<^verbatim>\<open>key = task.goal if task.goal else "Unaligned"\<close>: \<^verbatim>\<open>None\<close> and the empty
  string are the false values of the field.
\<close>

definition task_key :: "'f task \<Rightarrow> string" where
  "task_key t =
     (case goal t of None \<Rightarrow> ''Unaligned'' | Some g \<Rightarrow> if g = [] then ''Unaligned'' else g)"

fun group_tasks :: "'f task list \<Rightarrow> (string \<times> 'f task_summary list) list \<Rightarrow>
    (string \<times> 'f task_summary list) list" where
  "group_tasks [] tasks_by_goal = tasks_by_goal"
| "group_tasks (t # ts) tasks_by_goal =
     group_tasks ts (setdefault_append (task_key t) (summary_of t) tasks_by_goal)"

fun goal_lookup :: "goal_rec list \<Rightarrow> (string \<times> goal_rec) list \<Rightarrow> (string \<times> goal_rec) list" where
  "goal_lookup [] lookup = lookup"
| "goal_lookup (g # gs) lookup = goal_lookup gs (dict_set (goal_name g) g lookup)"

record 'f goal_summary =
  gs_goal :: string
  gs_difficulty :: string
  gs_notes :: string
  gs_tasks :: "'f task_summary list"

definition goal_summaries :: "'f task list \<Rightarrow> goal_rec list \<Rightarrow> 'f goal_summary list" where
  "goal_summaries ts gs =
     (let tasks_by_goal = group_tasks ts [] in
      map (\<lambda>(name, g).
          \<lparr>gs_goal = name, gs_difficulty = goal_difficulty g, gs_notes = goal_notes g,
           gs_tasks = (case map_of tasks_by_goal name of None \<Rightarrow> [] | Some l \<Rightarrow> l)\<rparr>)
        (goal_lookup gs []) @
      (case map_of tasks_by_goal ''Unaligned'' of
         None \<Rightarrow> []
       | Some l \<Rightarrow>
           [\<lparr>gs_goal = ''Unaligned'', gs_difficulty = [], gs_notes = [], gs_tasks = l\<rparr>]))"

record 'f schedule_context =
  ctx_goals :: "goal_rec list"
  ctx_tasks :: "'f task list"
  ctx_busy :: "(string \<times> busy_entry list) list"
  ctx_goal_focus :: "'f goal_summary list"
  ctx_guidelines :: "(string \<times> string) list"

definition build_schedule_context :: "'f app \<Rightarrow> 'f schedule_context" where
  "build_schedule_context a =
     \<lparr>ctx_goals = goals a,
      ctx_tasks = tasks a,
      ctx_busy = build_busy_context (busy_slots a),
      ctx_goal_focus = goal_summaries (tasks a) (goals a),
      ctx_guidelines =
        [(''bundle_tasks'', ''Group related tasks into shared focus blocks when possible.''),
         (''balance'',
          ''Balance workload across the week and mix easy and difficult sessions.''),
         (''avoid_single_task_blocks'',
          ''Avoid mapping each task to its own block unless necessary.'')]\<rparr>"

subsection \<open>\<^verbatim>\<open>TaskManagerApp._display_schedule\<close>\<close>

fun join :: "string \<Rightarrow> string list \<Rightarrow> string" where
  "join sep [] = []"
| "join sep [x] = x"
| "join sep (x # y # ys) = x @ sep @ join sep (y # ys)"

definition day_context :: "busy_grid \<Rightarrow> string \<Rightarrow> time_block list \<Rightarrow> py_error + string list" where
  "day_context grid d blocks =
     (case map_of (build_busy_context grid) d of
        None \<Rightarrow> Inl KeyError
      | Some slots \<Rightarrow>
          Inr ((if slots \<noteq> []
                then ''Existing commitments:'' #
                  map (\<lambda>slot. ''  '' @ be_start slot @ ''-'' @ be_end slot @ '': '' @
                        be_title slot) slots
                else [''Existing commitments: None'']) @
               (if blocks \<noteq> []
                then ''Planned tasks:'' #
                  map (\<lambda>block. ''  '' @ start_time block @ ''-'' @ end_time block @ '': '' @
                        title block @ '' ('' @ details block @ '')'') blocks
                else [''Planned tasks: None''])))"

text \<open>
  \<^verbatim>\<open>grouped[block.day].append(block)\<close> raises \<^verbatim>\<open>KeyError\<close> for a day outside
  \<open>WEEKDAYS\<close>; otherwise the group of a day is the blocks of that day, in order.
\<close>

definition display_schedule :: "busy_grid \<Rightarrow> time_block list \<Rightarrow> py_error + string" where
  "display_schedule grid blocks =
     (if \<not> list_all (\<lambda>block. day block \<in> set WEEKDAYS) blocks then Inl KeyError
      else
        (case collect (map (\<lambda>d. day_context grid d (filter (\<lambda>block. day block = d) blocks))
                 WEEKDAYS) of
           Inl e \<Rightarrow> Inl e
         | Inr ctxs \<Rightarrow>
             Inr (join [CHR 0x0A]
               (concat (map (\<lambda>(d, context_lines).
                    [d, replicate (length d) CHR ''-''] @ context_lines @ [[]])
                  (zip WEEKDAYS ctxs))))))"

subsection \<open>\<^verbatim>\<open>GPTScheduler.generate_schedule\<close> and \<^verbatim>\<open>TaskManagerApp.generate_schedule\<close>\<close>

text \<open>
  The call of the service and the decoding of its answer are the environment: a function
  from the context to the decoded response, or to the text of the exception raised
  (\<^verbatim>\<open>str(exc)\<close>). Without a client the method raises
  \<^verbatim>\<open>RuntimeError("OpenAI client not available")\<close> before any call.
\<close>

definition gpt_generate_schedule ::
    "bool \<Rightarrow> ('f schedule_context \<Rightarrow> string + schedule) \<Rightarrow> 'f schedule_context \<Rightarrow> string + schedule" where
  "gpt_generate_schedule available service ctx =
     (if \<not> available then Inl ''OpenAI client not available'' else service ctx)"

datatype dialog =
    ShowWarning string string
  | ShowError string string
  | ShowInfo string string

text \<open>
  What a callback leaves behind: the dialogs it showed, the exception that left it
  uncaught (if any), and the application object.
\<close>

record 'f outcome =
  dialogs :: "dialog list"
  raised :: "py_error option"
  app_after :: "'f app"

definition generate_schedule :: "('f schedule_context \<Rightarrow> string + schedule) \<Rightarrow> 'f app \<Rightarrow> 'f outcome" where
  "generate_schedule service a =
     (if tasks a = [] then
        \<lparr>dialogs = [ShowWarning ''No tasks''
           ''Add at least one task before generating a schedule.''],
         raised = None, app_after = a\<rparr>
      else if \<not> gpt_available a then
        \<lparr>dialogs = [ShowError ''OpenAI unavailable''
           ''An OpenAI API key is required. Set OPENAI_API_KEY in your environment to enable scheduling.''],
         raised = None, app_after = a\<rparr>
      else
        (case gpt_generate_schedule (gpt_available a) service (build_schedule_context a) of
           Inl msg \<Rightarrow>
             \<lparr>dialogs = [ShowError ''Scheduling failed'' msg], raised = None, app_after = a\<rparr>
         | Inr sched \<Rightarrow>
             (case parse_schedule sched of
                Inl e \<Rightarrow> \<lparr>dialogs = [], raised = Some e, app_after = a\<rparr>
              | Inr blocks \<Rightarrow>
                  (case find_conflicts (busy_slots a) blocks of
                     Inl e \<Rightarrow> \<lparr>dialogs = [], raised = Some e, app_after = a\<rparr>
                   | Inr conflicts \<Rightarrow>
                       (let shown =
                          (if conflicts \<noteq> []
                           then [ShowWarning ''Conflicts detected'' (join [CHR 0x0A] conflicts)]
                           else [])
                        in case display_schedule (busy_slots a) blocks of
                             Inl e \<Rightarrow>
                               \<lparr>dialogs = shown, raised = Some e,
                                app_after = a\<lparr>generated_blocks := blocks\<rparr>\<rparr>
                           | Inr text \<Rightarrow>
                               \<lparr>dialogs = shown, raised = None,
                                app_after = a\<lparr>generated_blocks := blocks,
                                  schedule_text := text,
                                  start_reminders_enabled := True\<rparr>\<rparr>)))))"

subsection \<open>Reminders: \<^verbatim>\<open>start_reminders\<close>, \<^verbatim>\<open>_reminder_loop\<close>, \<^verbatim>\<open>on_close\<close>\<close>

text \<open>
  \<open>reminder_alive\<close> is the condition
  \<^verbatim>\<open>self.reminder_thread and self.reminder_thread.is_alive()\<close>.
\<close>

definition start_reminders :: "'f app \<Rightarrow> dialog list \<times> 'f app" where
  "start_reminders a =
     (if generated_blocks a = [] then
        ([ShowWarning ''No schedule'' ''Generate a schedule first.''], a)
      else if reminder_alive a then
        ([ShowInfo ''Reminders running'' ''Reminders are already active.''], a)
      else
        ([ShowInfo ''Reminders started''
            ''Pop-up reminders will appear at the scheduled times.''],
         a\<lparr>stop_event := False, reminder_alive := True,
            start_reminders_enabled := False\<rparr>))"

definition on_close :: "'f app \<Rightarrow> 'f app" where
  "on_close a = a\<lparr>stop_event := True\<rparr>"

text \<open>
  A naive \<^verbatim>\<open>datetime\<close> is the number of microseconds since 0001-01-01 00:00:00, a
  Monday, so \<^verbatim>\<open>weekday()\<close> is the day number modulo 7 and a \<^verbatim>\<open>timedelta\<close> is
  added as a number of microseconds. The bounds of the type (the years 1 to 9999) are not
  modelled.
\<close>

definition US_PER_MINUTE :: int where
  "US_PER_MINUTE = 60000000"

definition US_PER_HOUR :: int where
  "US_PER_HOUR = 3600000000"

definition US_PER_DAY :: int where
  "US_PER_DAY = 86400000000"

definition weekday :: "int \<Rightarrow> int" where
  "weekday t = (t div US_PER_DAY) mod 7"

text \<open>
  \<^verbatim>\<open>dt.replace(hour=h, minute=m, second=0, microsecond=0)\<close> keeps the date and
  raises \<^verbatim>\<open>ValueError\<close> for an hour outside \<open>0..23\<close> or a minute outside \<open>0..59\<close>.
\<close>

definition replace_hm :: "int \<Rightarrow> int \<Rightarrow> int \<Rightarrow> py_error + int" where
  "replace_hm t h m =
     (if 0 \<le> h \<and> h \<le> 23 \<and> 0 \<le> m \<and> m \<le> 59
      then Inr ((t div US_PER_DAY) * US_PER_DAY + h * US_PER_HOUR + m * US_PER_MINUTE)
      else Inl ValueError)"

text \<open>\<^verbatim>\<open>s.split(":")\<close>: the pieces between the colons, at least one piece.\<close>

fun split_colon :: "string \<Rightarrow> string list" where
  "split_colon [] = [[]]"
| "split_colon (c # cs) =
     (if c = CHR '':'' then [] # split_colon cs
      else (case split_colon cs of [] \<Rightarrow> [[c]] | p # ps \<Rightarrow> (c # p) # ps))"

text \<open>
  \<^verbatim>\<open>int(s)\<close> on a string: white space is stripped at both ends (the characters
  \<open>0x09..0x0D\<close> and \<open>0x20\<close>, and the spaces \<open>0x85\<close> and \<open>0xA0\<close> beyond ASCII), then
  an optional sign and decimal digits; single underscores are allowed between digits.
  Anything else raises \<^verbatim>\<open>ValueError\<close>. The interpreter's limit on the number of
  digits is not modelled.
\<close>

definition is_space :: "char \<Rightarrow> bool" where
  "is_space c =
     (c \<in> set [CHR 0x09, CHR 0x0A, CHR 0x0B, CHR 0x0C, CHR 0x0D, CHR 0x20, CHR 0x85, CHR 0xA0])"

definition strip_ws :: "string \<Rightarrow> string" where
  "strip_ws s = rev (dropWhile is_space (rev (dropWhile is_space s)))"

fun int_digits :: "nat \<Rightarrow> string \<Rightarrow> nat option" where
  "int_digits acc [] = Some acc"
| "int_digits acc [c] = (if is_digit c then Some (10 * acc + digit_val c) else None)"
| "int_digits acc (c # d # ds) =
     (if is_digit c then int_digits (10 * acc + digit_val c) (d # ds)
      else if c = CHR ''_'' \<and> is_digit d then int_digits (10 * acc + digit_val d) ds
      else None)"

definition nat_literal :: "string \<Rightarrow> nat option" where
  "nat_literal s =
     (case s of [] \<Rightarrow> None | d # ds \<Rightarrow> if is_digit d then int_digits (digit_val d) ds else None)"

definition py_int :: "string \<Rightarrow> py_error + int" where
  "py_int s =
     (case strip_ws s of
        [] \<Rightarrow> Inl ValueError
      | c # cs \<Rightarrow>
          (case (if c = CHR ''-'' then map_option (\<lambda>n. - int n) (nat_literal cs)
                 else if c = CHR ''+'' then map_option int (nat_literal cs)
                 else map_option int (nat_literal (c # cs))) of
             None \<Rightarrow> Inl ValueError
           | Some n \<Rightarrow> Inr n))"

text \<open>
  \<^verbatim>\<open>start_hour, start_minute = map(int, block.start_time.split(":"))\<close>: exactly two
  pieces, each an integer; every failure is a \<^verbatim>\<open>ValueError\<close>.
\<close>

definition start_hour_minute :: "string \<Rightarrow> py_error + int \<times> int" where
  "start_hour_minute s =
     (case split_colon s of
        [a, b] \<Rightarrow>
          (case py_int a of
             Inl e \<Rightarrow> Inl e
           | Inr h \<Rightarrow> (case py_int b of Inl e \<Rightarrow> Inl e | Inr m \<Rightarrow> Inr (h, m)))
      | _ \<Rightarrow> Inl ValueError)"

text \<open>The body of the first loop of \<^verbatim>\<open>_reminder_loop\<close>, for one block.\<close>

definition block_fire_time :: "int \<Rightarrow> time_block \<Rightarrow> py_error + int" where
  "block_fire_time now block =
     (let monday = now - weekday now * US_PER_DAY in
      case index_of WEEKDAYS (day block) of
        Inl e \<Rightarrow> Inl e
      | Inr day_index \<Rightarrow>
          (let block_date = monday + int day_index * US_PER_DAY in
           case start_hour_minute (start_time block) of
             Inl e \<Rightarrow> Inl e
           | Inr (start_hour, start_minute) \<Rightarrow>
               (case replace_hm block_date start_hour start_minute of
                  Inl e \<Rightarrow> Inl e
                | Inr block_dt \<Rightarrow>
                    Inr (if block_dt < now then block_dt + 7 * US_PER_DAY else block_dt))))"

fun fire_times :: "int \<Rightarrow> time_block list \<Rightarrow> (int \<times> time_block) list \<Rightarrow>
    py_error + (int \<times> time_block) list" where
  "fire_times now [] blocks_by_datetime = Inr blocks_by_datetime"
| "fire_times now (block # rest) blocks_by_datetime =
     (case block_fire_time now block of
        Inl e \<Rightarrow> Inl e
      | Inr block_dt \<Rightarrow> fire_times now rest (blocks_by_datetime @ [(block_dt, block)]))"

text \<open>
  One pass of the \<^verbatim>\<open>for\<close> loop inside the \<^verbatim>\<open>while\<close>: the blocks handed to
  \<^verbatim>\<open>self.after(0, self._show_reminder, block)\<close>, in order, and the set \<open>shown\<close>
  afterwards.
\<close>

definition block_identifier :: "time_block \<Rightarrow> string \<times> string \<times> string" where
  "block_identifier block = (day block, start_time block, title block)"

fun tick :: "int \<Rightarrow> (int \<times> time_block) list \<Rightarrow> (string \<times> string \<times> string) set \<Rightarrow>
    time_block list \<times> (string \<times> string \<times> string) set" where
  "tick current [] shown = ([], shown)"
| "tick current ((block_dt, block) # rest) shown =
     (if block_dt \<le> current \<and> current < block_dt + US_PER_MINUTE \<and>
         block_identifier block \<notin> shown
      then (case tick current rest (insert (block_identifier block) shown) of
              (delivered, shown') \<Rightarrow> (block # delivered, shown'))
      else tick current rest shown)"

text \<open>
  The \<^verbatim>\<open>while\<close> loop runs until another thread sets \<^verbatim>\<open>stop_event\<close>. A run is
  given by the clock readings \<^verbatim>\<open>datetime.now()\<close> of the passes it made; the result
  lists, pass by pass, the blocks delivered.
\<close>

fun poll :: "(int \<times> time_block) list \<Rightarrow> int list \<Rightarrow> (string \<times> string \<times> string) set \<Rightarrow>
    time_block list list" where
  "poll blocks_by_datetime [] shown = []"
| "poll blocks_by_datetime (current # later) shown =
     (case tick current blocks_by_datetime shown of
        (delivered, shown') \<Rightarrow> delivered # poll blocks_by_datetime later shown')"

definition reminder_loop :: "time_block list \<Rightarrow> int \<Rightarrow> int list \<Rightarrow> py_error + time_block list list" where
  "reminder_loop generated now currents =
     (case fire_times now generated [] of
        Inl e \<Rightarrow> Inl e
      | Inr blocks_by_datetime \<Rightarrow> Inr (poll blocks_by_datetime currents {}))"

text \<open>
  The set \<open>shown\<close> after the passes at the given clock readings; and the first test
  of the \<^verbatim>\<open>if\<close> inside the \<^verbatim>\<open>for\<close> loop, that the reading lies in the minute
  that starts at the fire time.
\<close>

fun shown_after :: "(int \<times> time_block) list \<Rightarrow> int list \<Rightarrow> (string \<times> string \<times> string) set \<Rightarrow>
    (string \<times> string \<times> string) set" where
  "shown_after blocks_by_datetime [] shown = shown"
| "shown_after blocks_by_datetime (current # later) shown =
     shown_after blocks_by_datetime later (snd (tick current blocks_by_datetime shown))"

definition in_window :: "int \<Rightarrow> int \<Rightarrow> bool" where
  "in_window block_dt current = (block_dt \<le> current \<and> current < block_dt + US_PER_MINUTE)"

subsection \<open>The parser as the specification words it\<close>

text \<open>
  These three definitions follow the specification of the parser, not the source: an entry
  is accepted when it has the keys \<open>title\<close>, \<open>start\<close> and \<open>end\<close>; an accepted entry
  becomes a block of its day, the details defaulting to the empty string; the accepted
  blocks of a response are those of the entries under the seven canonical day names.
\<close>

definition has_required :: "entry \<Rightarrow> bool" where
  "has_required e = (e ''title'' \<noteq> None \<and> e ''start'' \<noteq> None \<and> e ''end'' \<noteq> None)"

definition block_of_entry :: "string \<Rightarrow> entry \<Rightarrow> time_block" where
  "block_of_entry d e =
     \<lparr>title = the (e ''title''), day = d, start_time = the (e ''start''),
      end_time = the (e ''end''),
      details = (case e ''details'' of None \<Rightarrow> [] | Some x \<Rightarrow> x)\<rparr>"

definition accepted_blocks :: "days_dict \<Rightarrow> time_block list" where
  "accepted_blocks days =
     concat (map (\<lambda>(d, entries).
        if d \<in> set WEEKDAYS then map (block_of_entry d) (filter has_required entries)
        else []) days)"



text \<open>The response of the specification's sorting example, and one with defects.\<close>

definition example_schedule :: schedule where
  "example_schedule = Some
     [(''Wednesday'',
        [[''title'' \<mapsto> ''A'', ''start'' \<mapsto> ''09:00'', ''end'' \<mapsto> ''10:00'']]),
      (''Monday'',
        [[''title'' \<mapsto> ''B'', ''start'' \<mapsto> ''14:00'', ''end'' \<mapsto> ''15:00''],
         [''title'' \<mapsto> ''C'', ''start'' \<mapsto> ''08:00'', ''end'' \<mapsto> ''09:00'']])]"

definition defective_schedule :: schedule where
  "defective_schedule = Some
     [(''Funday'',
        [[''title'' \<mapsto> ''X'', ''start'' \<mapsto> ''09:00'', ''end'' \<mapsto> ''10:00'']]),
      (''Monday'',
        [[''title'' \<mapsto> ''No start'', ''end'' \<mapsto> ''15:00''],
         [''title'' \<mapsto> ''C'', ''start'' \<mapsto> ''08:00'', ''end'' \<mapsto> ''09:00''],
         [''title'' \<mapsto> ''D'', ''start'' \<mapsto> ''10:00'', ''end'' \<mapsto> ''11:00'',
          ''details'' \<mapsto> ''notes'']])]"


definition unparsed_schedule :: schedule where
  "unparsed_schedule = Some
     [(''Monday'',
        [[''title'' \<mapsto> ''Gym'', ''start'' \<mapsto> ''9am'', ''end'' \<mapsto> ''10am'']])]"

subsection \<open>The state after \<^verbatim>\<open>__init__\<close>\<close>

text \<open>
  No task, no goal, every day's busy list empty, nothing generated, no reminder thread,
  every cell of the grid white and raised, the reminder button disabled. Whether a client
  exists depends on the environment (the key \<^verbatim>\<open>OPENAI_API_KEY\<close> and the import).
\<close>

definition initial_busy_slots :: busy_grid where
  "initial_busy_slots = (\<lambda>d. [])"

definition initial_app :: "bool \<Rightarrow> 'f app" where
  "initial_app available =
     \<lparr>gpt_available = available, tasks = [], goals = [], busy_slots = initial_busy_slots,
      generated_blocks = [], reminder_alive = False, stop_event = False,
      availability_buttons = (\<lambda>slot. White_raised), schedule_text = [],
      start_reminders_enabled = False\<rparr>"

subsection \<open>When the conflict detector can compare two blocks\<close>

text \<open>
  The overlap test parses the times of two blocks only when they share the weekday; it
  then needs the start and the end of both to parse.
\<close>

definition times_parse :: "time_block \<Rightarrow> bool" where
  "times_parse b = (\<not> isl (strptime_HM (start_time b)) \<and> \<not> isl (strptime_HM (end_time b)))"

definition can_compare :: "time_block \<Rightarrow> time_block \<Rightarrow> bool" where
  "can_compare block busy = (if day block = day busy then times_parse block \<and> times_parse busy else True)"

text \<open>The specification's conflict example: Monday 09:00 to 10:00 is busy.\<close>

definition conflict_schedule :: schedule where
  "conflict_schedule = Some
     [(''Monday'',
        [[''title'' \<mapsto> ''Write'', ''start'' \<mapsto> ''09:30'', ''end'' \<mapsto> ''10:30''],
         [''title'' \<mapsto> ''Read'', ''start'' \<mapsto> ''10:00'', ''end'' \<mapsto> ''11:00'']])]"

definition conflict_app :: "nat app" where
  "conflict_app = (initial_app True)
     \<lparr>tasks := [\<lparr>task_name = ''Essay'', duration_hours = 2, task_difficulty = ''Medium'',
                 task_notes = [], goal = None\<rparr>],
      busy_slots := initial_busy_slots(''Monday'' := [(9, 1)])\<rparr>"

subsection \<open>The busy-time model and sequences of clicks\<close>

text \<open>
  The busy-time model of the specification is, for each weekday, the set of the intervals
  \<open>(hour, duration)\<close> in the day's list; the order of the list is not part of it. Every
  interval that \<^verbatim>\<open>toggle_busy\<close> stores is one hour long and nothing else writes the
  lists, so in every state of a session the intervals of the seven days are one hour long.
\<close>

definition busy_model :: "'f app \<Rightarrow> string \<Rightarrow> (int \<times> int) set" where
  "busy_model a d = set (busy_slots a d)"

definition one_hour_slots :: "'f app \<Rightarrow> bool" where
  "one_hour_slots a =
     list_all (\<lambda>d. list_all (\<lambda>(h, dur). dur = 1) (busy_slots a d)) WEEKDAYS"

text \<open>
  Each cell's command is \<^verbatim>\<open>toggle_busy(d, h)\<close>; a sequence of clicks runs the
  commands in order, and an exception ends it.
\<close>

fun clicks :: "(string \<times> int) list \<Rightarrow> 'f app \<Rightarrow> py_error + 'f app" where
  "clicks [] a = Inr a"
| "clicks ((d, hour) # rest) a =
     (case toggle_busy d hour a of Inl e \<Rightarrow> Inl e | Inr a' \<Rightarrow> clicks rest a')"

text \<open>
  A state with the busy lists that the clicks Monday 9, Monday 10 leave on a fresh
  application.
\<close>

definition two_slot_app :: "unit app" where
  "two_slot_app = (initial_app True)
     \<lparr>busy_slots := initial_busy_slots(''Monday'' := [(9, 1), (10, 1)])\<rparr>"

subsection \<open>Example sessions\<close>


definition launch_app :: "nat app" where
  "launch_app = (initial_app True)
     \<lparr>tasks :=
        [\<lparr>task_name = ''Plan'', duration_hours = 1, task_difficulty = ''Low'',
          task_notes = [], goal = Some ''Launch''\<rparr>,
         \<lparr>task_name = ''Build'', duration_hours = 3, task_difficulty = ''High'',
          task_notes = [], goal = Some ''Launch''\<rparr>,
         \<lparr>task_name = ''Laundry'', duration_hours = 1, task_difficulty = ''Low'',
          task_notes = [], goal = None\<rparr>,
         \<lparr>task_name = ''Slides'', duration_hours = 2, task_difficulty = ''Medium'',
          task_notes = [], goal = Some ''Ghost''\<rparr>],
      goals := [\<lparr>goal_name = ''Launch'', goal_difficulty = ''High'', goal_notes = []\<rparr>]\<rparr>"

definition running_app :: "nat app" where
  "running_app = launch_app
     \<lparr>generated_blocks :=
        [\<lparr>title = ''Plan'', day = ''Monday'', start_time = ''08:00'', end_time = ''09:00'',
          details = []\<rparr>],
      reminder_alive := True\<rparr>"

subsection \<open>The fire time as the specification words it\<close>

text \<open>
  These three definitions follow the specification of the reminder loop, not the source.
  The anchor is the midnight that begins the most recent Monday at or before \<open>now\<close>;
  the candidate is the anchor plus the weekday offset of \<open>i\<close> days, at the time of day
  \<open>h:m\<close>; exactly one week is added when the candidate is before \<open>now\<close>.
\<close>

definition most_recent_monday :: "int \<Rightarrow> int" where
  "most_recent_monday now = (now div US_PER_DAY - weekday now) * US_PER_DAY"

definition fire_candidate :: "int \<Rightarrow> int \<Rightarrow> int \<Rightarrow> int \<Rightarrow> int" where
  "fire_candidate now i h m =
     most_recent_monday now + i * US_PER_DAY + h * US_PER_HOUR + m * US_PER_MINUTE"

definition next_fire :: "int \<Rightarrow> int \<Rightarrow> int \<Rightarrow> int \<Rightarrow> int" where
  "next_fire now i h m =
     (if fire_candidate now i h m < now then fire_candidate now i h m + 7 * US_PER_DAY
      else fire_candidate now i h m)"

text \<open>
  The entries of two blocks, Monday 09:30 and Monday 10:00, with their fire times in the
  week that begins at the origin.
\<close>

definition reminder_blocks :: "(int \<times> time_block) list" where
  "reminder_blocks =
     [(570 * US_PER_MINUTE,
       \<lparr>title = ''Plan'', day = ''Monday'', start_time = ''09:30'', end_time = ''10:30'',
        details = []\<rparr>),
      (600 * US_PER_MINUTE,
       \<lparr>title = ''Read'', day = ''Monday'', start_time = ''10:00'', end_time = ''11:00'',
        details = []\<rparr>)]"

section \<open>Properties\<close>

subsection \<open>Evaluation of the time formats\<close>

lemmas strptime_eval = strptime_HM_def is_digit_def digit_val_def

subsection \<open>The overlap test\<close>

text \<open>
  Claim C2. For two blocks whose start and end fields parse as \<open>HH:MM\<close> times of day,
  \<open>overlaps\<close> returns false when the weekdays differ, and for equal weekdays returns
  true exactly when \<open>start_a < end_b\<close> and \<open>start_b < end_a\<close>; in particular two blocks
  of the same day that touch at a boundary (the end of the first is the start of the
  second) do not overlap.
\<close>

theorem overlaps_spec:
  assumes "strptime_HM (start_time a) = Inr sa" and "strptime_HM (end_time a) = Inr ea"
    and "strptime_HM (start_time b) = Inr sb" and "strptime_HM (end_time b) = Inr eb"
  shows "overlaps a b = Inr (day a = day b \<and> sa < eb \<and> sb < ea) \<and>
         (day a \<noteq> day b \<longrightarrow> overlaps a b = Inr False) \<and>
         (day a = day b \<and> ea = sb \<longrightarrow> overlaps a b = Inr False)"
  using assms by (simp add: overlaps_def)

theorem overlaps_spec_witness:
  "strptime_HM ''09:00'' = Inr 540 \<and> strptime_HM ''10:00'' = Inr 600 \<and>
   strptime_HM ''11:00'' = Inr 660 \<and>
   overlaps
     \<lparr>title = ''A'', day = ''Monday'', start_time = ''09:00'', end_time = ''10:00'',
      details = []\<rparr>
     \<lparr>title = ''B'', day = ''Monday'', start_time = ''10:00'', end_time = ''11:00'',
      details = []\<rparr>
     = Inr False"
proof -
  have h1: "strptime_HM ''09:00'' = Inr 540" by (simp add: strptime_eval)
  have h2: "strptime_HM ''10:00'' = Inr 600" by (simp add: strptime_eval)
  have h3: "strptime_HM ''11:00'' = Inr 660" by (simp add: strptime_eval)
  show ?thesis
    using h1 h2 h3
      overlaps_spec [of
        "\<lparr>title = ''A'', day = ''Monday'', start_time = ''09:00'', end_time = ''10:00'',
          details = []\<rparr>" 540 600
        "\<lparr>title = ''B'', day = ''Monday'', start_time = ''10:00'', end_time = ''11:00'',
          details = []\<rparr>" 600 660]
    by simp
qed

subsection \<open>The parser\<close>

lemma entry_block_cases:
  "entry_block d e = (if has_required e then Inr (block_of_entry d e) else Inl KeyError)"
  by (auto simp: entry_block_def has_required_def block_of_entry_def split: option.splits)

lemma parse_entries_eq:
  "parse_entries d es acc = acc @ map (block_of_entry d) (filter has_required es)"
  by (induction es arbitrary: acc) (simp_all add: entry_block_cases)

lemma parse_days_eq: "parse_days days acc = acc @ accepted_blocks days"
  by (induction days acc rule: parse_days.induct)
     (simp_all add: accepted_blocks_def parse_entries_eq)

lemma index_of_mem: "x \<in> set xs \<Longrightarrow> \<exists>i. index_of xs x = Inr i"
  by (induction xs) auto

lemma index_of_bound: "index_of xs x = Inr i \<Longrightarrow> i < length xs \<and> xs ! i = x"
  by (induction xs arbitrary: i) (auto split: if_splits sum.splits)

lemma accepted_blocks_day: "b \<in> set (accepted_blocks days) \<Longrightarrow> day b \<in> set WEEKDAYS"
  by (auto simp: accepted_blocks_def block_of_entry_def split: if_splits)

lemma collect_total:
  "(\<And>x. x \<in> set xs \<Longrightarrow> \<exists>k. f x = Inr k) \<Longrightarrow>
     \<exists>ks. collect (map f xs) = Inr ks \<and> length ks = length xs \<and>
       (\<forall>p \<in> set (zip ks xs). f (snd p) = Inr (fst p))"
proof (induction xs)
  case Nil
  then show ?case by simp
next
  case (Cons x xs)
  then obtain k where k: "f x = Inr k" by auto
  from Cons obtain ks where ks: "collect (map f xs) = Inr ks" "length ks = length xs"
    "\<forall>p \<in> set (zip ks xs). f (snd p) = Inr (fst p)" by auto
  show ?case using k ks by auto
qed

lemma collect_Inr_keys:
  "collect (map f xs) = Inr ks \<Longrightarrow> length ks = length xs \<and>
       (\<forall>p \<in> set (zip ks xs). f (snd p) = Inr (fst p))"
  by (induction xs arbitrary: ks) (auto split: sum.splits)

lemma collect_map_Inr: "collect (map Inr ks) = Inr ks"
  by (induction ks) auto

lemma py_sorted_Inr:
  assumes "py_sorted key xs = Inr ys"
  shows "mset ys = mset xs" and "\<exists>ks. collect (map key ys) = Inr ks \<and> sorted ks"
proof -
  from assms obtain ks where ks: "collect (map key xs) = Inr ks"
    and ys: "ys = map snd (sort_key fst (zip ks xs))"
    by (auto simp: py_sorted_def split: sum.splits)
  from collect_Inr_keys[OF ks] have len: "length ks = length xs"
    and keys: "\<forall>p \<in> set (zip ks xs). key (snd p) = Inr (fst p)" by auto
  have "mset ys = image_mset snd (mset (zip ks xs))"
    by (simp add: ys)
  also have "\<dots> = mset (map snd (zip ks xs))" by simp
  also have "\<dots> = mset xs" using len by simp
  finally show "mset ys = mset xs" .
  have "map key ys = map (\<lambda>p. Inr (fst p)) (sort_key fst (zip ks xs))"
    using keys by (simp add: ys)
  also have "\<dots> = map Inr (map fst (sort_key fst (zip ks xs)))" by simp
  finally have "collect (map key ys) = Inr (map fst (sort_key fst (zip ks xs)))"
    by (simp only: collect_map_Inr)
  moreover have "sorted (map fst (sort_key fst (zip ks xs)))" by (rule sorted_sort_key)
  ultimately show "\<exists>ks. collect (map key ys) = Inr ks \<and> sorted ks" by blast
qed

lemma py_sorted_total:
  "(\<And>x. x \<in> set xs \<Longrightarrow> \<exists>k. key x = Inr k) \<Longrightarrow> \<exists>ys. py_sorted key xs = Inr ys"
  using collect_total[of xs key] by (auto simp: py_sorted_def)

lemma block_key_total: "day b \<in> set WEEKDAYS \<Longrightarrow> \<exists>k. block_key b = Inr k"
  using index_of_mem[of "day b" WEEKDAYS] by (auto simp: block_key_def)

lemma parse_schedule_total: "\<exists>blocks. parse_schedule sched = Inr blocks"
  unfolding parse_schedule_def
proof (rule py_sorted_total)
  fix x
  assume "x \<in> set (parse_days (case sched of None \<Rightarrow> [] | Some days \<Rightarrow> days) [])"
  then have "day x \<in> set WEEKDAYS" by (simp add: parse_days_eq accepted_blocks_day)
  then show "\<exists>k. block_key x = Inr k" by (rule block_key_total)
qed

text \<open>
  Claim C3. For every response that maps day names to lists of entries, the parser returns
  a list of blocks (it raises nothing) that consists, with multiplicities, of exactly the
  accepted blocks: the days outside the canonical seven contribute nothing, an entry
  without \<open>title\<close>, \<open>start\<close> or \<open>end\<close> is skipped and the entries after it are still
  processed, absent details become the empty string, and every other entry becomes a
  block.
\<close>

theorem parse_schedule_accepts:
  "\<exists>blocks. parse_schedule sched = Inr blocks \<and>
     mset blocks = mset (accepted_blocks (case sched of None \<Rightarrow> [] | Some days \<Rightarrow> days))"
proof -
  obtain blocks where b: "parse_schedule sched = Inr blocks"
    using parse_schedule_total by blast
  then have "mset blocks = mset (parse_days (case sched of None \<Rightarrow> [] | Some days \<Rightarrow> days) [])"
    unfolding parse_schedule_def by (rule py_sorted_Inr(1))
  with b show ?thesis by (simp add: parse_days_eq)
qed


theorem parse_schedule_accepts_witness:
  "parse_schedule defective_schedule = Inr
     [\<lparr>title = ''C'', day = ''Monday'', start_time = ''08:00'', end_time = ''09:00'',
       details = []\<rparr>,
      \<lparr>title = ''D'', day = ''Monday'', start_time = ''10:00'', end_time = ''11:00'',
       details = ''notes''\<rparr>]"
proof -
  have "accepted_blocks (case defective_schedule of None \<Rightarrow> [] | Some days \<Rightarrow> days) =
     [\<lparr>title = ''C'', day = ''Monday'', start_time = ''08:00'', end_time = ''09:00'',
       details = []\<rparr>,
      \<lparr>title = ''D'', day = ''Monday'', start_time = ''10:00'', end_time = ''11:00'',
       details = ''notes''\<rparr>]"
    by (simp add: defective_schedule_def accepted_blocks_def has_required_def
        block_of_entry_def WEEKDAYS_def)
  moreover have "parse_schedule defective_schedule = Inr
     [\<lparr>title = ''C'', day = ''Monday'', start_time = ''08:00'', end_time = ''09:00'',
       details = []\<rparr>,
      \<lparr>title = ''D'', day = ''Monday'', start_time = ''10:00'', end_time = ''11:00'',
       details = ''notes''\<rparr>]"
    by (simp add: defective_schedule_def parse_schedule_def py_sorted_def entry_block_def
        WEEKDAYS_def block_key_def less_eq_char_def less_char_def)
  ultimately show ?thesis using parse_schedule_accepts [of defective_schedule] by simp
qed

subsection \<open>The order of the parsed blocks\<close>



lemma digit_le9: "is_digit a \<Longrightarrow> digit_val a \<le> 9"
  unfolding is_digit_def digit_val_def by auto









lemma dec2_bound: "dec2 s = Some n \<Longrightarrow> n \<le> 99"
  by (cases s rule: dec2.cases) (auto split: if_splits dest!: digit_le9)








subsection \<open>The conflict detector\<close>

lemma strptime_error: "strptime_HM s = Inl e \<Longrightarrow> e = ValueError"
  by (auto simp: strptime_HM_def split: list.splits option.splits if_splits)

lemma overlaps_error: "overlaps a b = Inl e \<Longrightarrow> e = ValueError"
  by (auto simp: overlaps_def split: if_splits sum.splits dest: strptime_error)

lemma overlaps_isl: "isl (overlaps a b) = (\<not> can_compare a b)"
  by (auto simp: overlaps_def can_compare_def times_parse_def split: sum.splits)

lemma conflicts_with_ok:
  "list_all (can_compare block) bs \<Longrightarrow>
   conflicts_with block bs msgs =
     Inr (msgs @ map (\<lambda>busy. conflict_message block) (filter (\<lambda>busy. overlaps block busy = Inr True) bs))"
proof (induction bs arbitrary: msgs)
  case Nil
  then show ?case by simp
next
  case (Cons busy bs)
  from Cons.prems have "\<not> isl (overlaps block busy)" by (simp add: overlaps_isl)
  then obtain hit where hit: "overlaps block busy = Inr hit" by (cases "overlaps block busy") auto
  from Cons.prems have "list_all (can_compare block) bs" by simp
  from Cons.IH[OF this] hit show ?case by simp
qed

lemma conflicts_with_raises:
  "\<not> list_all (can_compare block) bs \<Longrightarrow> conflicts_with block bs msgs = Inl ValueError"
proof (induction bs arbitrary: msgs)
  case Nil
  then show ?case by simp
next
  case (Cons busy bs)
  show ?case
  proof (cases "overlaps block busy")
    case (Inl e)
    then show ?thesis using overlaps_error[OF Inl] by simp
  next
    case (Inr hit)
    then have "can_compare block busy" using overlaps_isl[of block busy] by simp
    with Cons.prems have "\<not> list_all (can_compare block) bs" by simp
    from Cons.IH[OF this] Inr show ?thesis by simp
  qed
qed

lemma conflicts_loop_ok:
  "list_all (\<lambda>block. list_all (can_compare block) bs) blocks \<Longrightarrow>
   conflicts_loop blocks bs msgs =
     Inr (msgs @ concat (map (\<lambda>block. map (\<lambda>busy. conflict_message block)
        (filter (\<lambda>busy. overlaps block busy = Inr True) bs)) blocks))"
  by (induction blocks arbitrary: msgs) (simp_all add: conflicts_with_ok)

lemma conflicts_loop_raises:
  "\<not> list_all (\<lambda>block. list_all (can_compare block) bs) blocks \<Longrightarrow>
   conflicts_loop blocks bs msgs = Inl ValueError"
proof (induction blocks arbitrary: msgs)
  case Nil
  then show ?case by simp
next
  case (Cons block blocks)
  show ?case
  proof (cases "list_all (can_compare block) bs")
    case True
    with Cons.prems have "\<not> list_all (\<lambda>block. list_all (can_compare block) bs) blocks" by simp
    from Cons.IH[OF this] True show ?thesis by (simp add: conflicts_with_ok)
  next
    case False
    then show ?thesis by (simp add: conflicts_with_raises)
  qed
qed


lemma generate_schedule_keeps_blocks:
  assumes "tasks a \<noteq> []" and "gpt_available a"
    and "service (build_schedule_context a) = Inr sched"
    and "parse_schedule sched = Inr blocks"
    and "find_conflicts (busy_slots a) blocks = Inr msgs"
  shows "generated_blocks (app_after (generate_schedule service a)) = blocks \<and>
         busy_slots (app_after (generate_schedule service a)) = busy_slots a"
  using assms
  by (simp add: generate_schedule_def gpt_generate_schedule_def Let_def split: sum.splits)

lemmas conflicts_eval = find_conflicts_def busy_blocks_def build_busy_context_def WEEKDAYS_def
  slot_entry_def fmt_02d_def digits10.simps overlaps_def initial_busy_slots_def strptime_eval
  conflict_message_def

text \<open>
  Claim C5, as stated, fails: the parser accepts any string as a time, and a generated
  block whose time does not parse makes the detector raise \<^verbatim>\<open>ValueError\<close> when a
  busy interval lies on the same weekday, instead of returning messages.
\<close>

theorem unparsed_time_counterexample:
  "find_conflicts (initial_busy_slots(''Monday'' := [(9, 1)]))
     [\<lparr>title = ''Gym'', day = ''Monday'', start_time = ''9am'', end_time = ''10am'',
       details = []\<rparr>] = Inl ValueError"
  by (simp add: conflicts_eval)

text \<open>
  Claim C5, amended. For every block list and busy model in which, for each generated
  block and busy block on the same weekday, the start and end of both parse as
  \<open>HH:MM\<close>, the detector returns, block by block and in the order of the busy blocks,
  exactly one message per pair that overlaps, formatted from the generated block; it
  returns the empty list when no pair overlaps; and schedule generation stores the parsed
  blocks as they are and leaves the busy model as it was (the detection is advisory).
\<close>

theorem find_conflicts_messages:
  assumes "list_all (\<lambda>block. list_all (can_compare block) (busy_blocks grid)) blocks"
  shows "find_conflicts grid blocks =
           Inr (concat (map (\<lambda>block. map (\<lambda>busy. conflict_message block)
             (filter (\<lambda>busy. overlaps block busy = Inr True) (busy_blocks grid))) blocks)) \<and>
         (list_all (\<lambda>block. list_all (\<lambda>busy. overlaps block busy \<noteq> Inr True)
             (busy_blocks grid)) blocks \<longrightarrow> find_conflicts grid blocks = Inr []) \<and>
         (tasks a \<noteq> [] \<and> gpt_available a \<and> busy_slots a = grid \<and>
          service (build_schedule_context a) = Inr sched \<and> parse_schedule sched = Inr blocks \<longrightarrow>
            generated_blocks (app_after (generate_schedule service a)) = blocks \<and>
            busy_slots (app_after (generate_schedule service a)) = grid)"
proof -
  have eq: "find_conflicts grid blocks =
           Inr (concat (map (\<lambda>block. map (\<lambda>busy. conflict_message block)
             (filter (\<lambda>busy. overlaps block busy = Inr True) (busy_blocks grid))) blocks))"
    unfolding find_conflicts_def using conflicts_loop_ok[OF assms, of "[]"] by simp
  have none: "find_conflicts grid blocks = Inr []"
    if "list_all (\<lambda>block. list_all (\<lambda>busy. overlaps block busy \<noteq> Inr True)
             (busy_blocks grid)) blocks"
  proof -
    from that have "\<And>block. block \<in> set blocks \<Longrightarrow>
        filter (\<lambda>busy. overlaps block busy = Inr True) (busy_blocks grid) = []"
      by (auto simp: list_all_iff filter_empty_conv)
    then show ?thesis unfolding eq by simp
  qed
  have adv: "generated_blocks (app_after (generate_schedule service a)) = blocks \<and>
            busy_slots (app_after (generate_schedule service a)) = grid"
    if "tasks a \<noteq> [] \<and> gpt_available a \<and> busy_slots a = grid \<and>
          service (build_schedule_context a) = Inr sched \<and> parse_schedule sched = Inr blocks"
    using that eq generate_schedule_keeps_blocks[of a service sched blocks] by auto
  from eq none adv show ?thesis by blast
qed

theorem find_conflicts_messages_witness:
  "list_all (\<lambda>block. list_all (can_compare block)
       (busy_blocks (initial_busy_slots(''Monday'' := [(9, 1)]))))
     [\<lparr>title = ''Write'', day = ''Monday'', start_time = ''09:30'', end_time = ''10:30'',
       details = []\<rparr>,
      \<lparr>title = ''Read'', day = ''Monday'', start_time = ''10:00'', end_time = ''11:00'',
       details = []\<rparr>] \<and>
   find_conflicts (initial_busy_slots(''Monday'' := [(9, 1)]))
     [\<lparr>title = ''Write'', day = ''Monday'', start_time = ''09:30'', end_time = ''10:30'',
       details = []\<rparr>,
      \<lparr>title = ''Read'', day = ''Monday'', start_time = ''10:00'', end_time = ''11:00'',
       details = []\<rparr>] = Inr [''Write on Monday 09:30-10:30 overlaps busy time.''] \<and>
   generated_blocks (app_after (generate_schedule (\<lambda>ctx. Inr conflict_schedule) conflict_app)) =
     [\<lparr>title = ''Write'', day = ''Monday'', start_time = ''09:30'', end_time = ''10:30'',
       details = []\<rparr>,
      \<lparr>title = ''Read'', day = ''Monday'', start_time = ''10:00'', end_time = ''11:00'',
       details = []\<rparr>] \<and>
   busy_slots (app_after (generate_schedule (\<lambda>ctx. Inr conflict_schedule) conflict_app)) =
     initial_busy_slots(''Monday'' := [(9, 1)])"
proof -
  let ?G = "initial_busy_slots(''Monday'' := [(9, 1)])"
  let ?BL = "[\<lparr>title = ''Write'', day = ''Monday'', start_time = ''09:30'', end_time = ''10:30'',
       details = []\<rparr>,
      \<lparr>title = ''Read'', day = ''Monday'', start_time = ''10:00'', end_time = ''11:00'',
       details = []\<rparr>]"
  have bb: "busy_blocks ?G = [\<lparr>title = ''Busy'', day = ''Monday'', start_time = ''09:00'',
      end_time = ''10:00'', details = []\<rparr>]"
    by (simp add: busy_blocks_def build_busy_context_def WEEKDAYS_def slot_entry_def
        fmt_02d_def digits10.simps initial_busy_slots_def)
  have h: "list_all (\<lambda>block. list_all (can_compare block) (busy_blocks ?G)) ?BL"
    unfolding bb by (simp add: can_compare_def times_parse_def strptime_eval)
  have ps: "parse_schedule conflict_schedule = Inr ?BL"
    by (simp add: conflict_schedule_def parse_schedule_def py_sorted_def entry_block_def
        WEEKDAYS_def block_key_def less_eq_char_def less_char_def)
  have ap: "tasks conflict_app \<noteq> [] \<and> gpt_available conflict_app \<and> busy_slots conflict_app = ?G"
    by (simp add: conflict_app_def initial_app_def)
  have o1: "overlaps \<lparr>title = ''Write'', day = ''Monday'', start_time = ''09:30'',
        end_time = ''10:30'', details = []\<rparr> \<lparr>title = ''Busy'', day = ''Monday'',
        start_time = ''09:00'', end_time = ''10:00'', details = []\<rparr> = Inr True"
    by (simp add: overlaps_def strptime_eval)
  have o2: "overlaps \<lparr>title = ''Read'', day = ''Monday'', start_time = ''10:00'',
        end_time = ''11:00'', details = []\<rparr> \<lparr>title = ''Busy'', day = ''Monday'',
        start_time = ''09:00'', end_time = ''10:00'', details = []\<rparr> = Inr False"
    by (simp add: overlaps_def strptime_eval)
  show ?thesis
    using h ps ap
      find_conflicts_messages [of ?G ?BL conflict_app "\<lambda>ctx. Inr conflict_schedule"
        conflict_schedule]
    by (simp add: bb o1 o2 conflict_message_def)
qed


subsection \<open>A busy slot at hour 23\<close>

lemma hour23_busy_block:
  assumes "d \<in> set WEEKDAYS" and "(23, 1) \<in> set (grid d)"
  shows "\<lparr>title = ''Busy'', day = d, start_time = ''23:00'', end_time = ''24:00'', details = []\<rparr>
           \<in> set (busy_blocks grid)"
proof -
  have "slot_entry (23, 1) = \<lparr>be_start = ''23:00'', be_end = ''24:00'', be_title = ''Busy''\<rparr>"
    by (simp add: slot_entry_def fmt_02d_def digits10.simps)
  with assms show ?thesis
    unfolding busy_blocks_def build_busy_context_def by force
qed

text \<open>
  Claim C10, as stated, fails: with a slot at hour 23 the detector still returns a list
  for a non-empty block list none of whose blocks is on the weekday of that slot, because
  the overlap test returns before parsing when the weekdays differ.
\<close>

theorem hour23_other_day_counterexample:
  "find_conflicts (initial_busy_slots(''Monday'' := [(23, 1)]))
     [\<lparr>title = ''Read'', day = ''Tuesday'', start_time = ''09:00'', end_time = ''10:00'',
       details = []\<rparr>] = Inr []"
  by (simp add: conflicts_eval)

text \<open>
  Claim C10, amended. A busy slot at hour 23 with duration 1 gives the snapshot interval
  from \<open>23:00\<close> to \<open>24:00\<close>; \<open>24:00\<close> does not parse as a time of day; and conflict
  detection raises \<^verbatim>\<open>ValueError\<close> on every block list that contains a block on the
  weekday of that slot.
\<close>

theorem hour23_conflict_raises:
  assumes "d \<in> set WEEKDAYS" and "(23, 1) \<in> set (grid d)"
    and "block \<in> set blocks" and "day block = d"
  shows "slot_entry (23, 1) = \<lparr>be_start = ''23:00'', be_end = ''24:00'', be_title = ''Busy''\<rparr> \<and>
         strptime_HM ''24:00'' = Inl ValueError \<and>
         find_conflicts grid blocks = Inl ValueError"
proof -
  have e: "slot_entry (23, 1) = \<lparr>be_start = ''23:00'', be_end = ''24:00'', be_title = ''Busy''\<rparr>"
    by (simp add: slot_entry_def fmt_02d_def digits10.simps)
  have p: "strptime_HM ''24:00'' = Inl ValueError" by (simp add: strptime_eval)
  let ?B = "\<lparr>title = ''Busy'', day = d, start_time = ''23:00'', end_time = ''24:00'', details = []\<rparr>"
  have "\<not> can_compare block ?B" using assms(4) p by (simp add: can_compare_def times_parse_def)
  with hour23_busy_block[of d grid, OF assms(1,2)] have "\<not> list_all (can_compare block) (busy_blocks grid)"
    by (auto simp: list_all_iff)
  with assms(3) have "\<not> list_all (\<lambda>block. list_all (can_compare block) (busy_blocks grid)) blocks"
    by (auto simp: list_all_iff)
  then have "find_conflicts grid blocks = Inl ValueError"
    unfolding find_conflicts_def by (rule conflicts_loop_raises)
  with e p show ?thesis by simp
qed

theorem hour23_conflict_raises_witness:
  "''Monday'' \<in> set WEEKDAYS \<and>
   find_conflicts (initial_busy_slots(''Monday'' := [(23, 1)]))
     [\<lparr>title = ''Read'', day = ''Monday'', start_time = ''09:00'', end_time = ''10:00'',
       details = []\<rparr>] = Inl ValueError"
  using hour23_conflict_raises [of "''Monday''" "initial_busy_slots(''Monday'' := [(23, 1)])"
      "\<lparr>title = ''Read'', day = ''Monday'', start_time = ''09:00'', end_time = ''10:00'',
        details = []\<rparr>"
      "[\<lparr>title = ''Read'', day = ''Monday'', start_time = ''09:00'', end_time = ''10:00'',
        details = []\<rparr>]"]
  by (simp add: WEEKDAYS_def)

subsection \<open>Toggling a busy slot\<close>

lemma toggle_slots_absent:
  "hour \<notin> fst ` set l \<Longrightarrow> toggle_slots hour (toggle_slots hour l) = l"
proof -
  assume a: "hour \<notin> fst ` set l"
  then have "filter (\<lambda>(h, dur). h \<noteq> hour) l = l"
    by (induction l) auto
  with a show ?thesis by (simp add: toggle_slots_def)
qed

lemma toggle_slots_present:
  "hour \<in> fst ` set l \<Longrightarrow>
   toggle_slots hour (toggle_slots hour l) = filter (\<lambda>(h, dur). h \<noteq> hour) l @ [(hour, 1)]"
  by (auto simp: toggle_slots_def)

lemma toggle_slots_present_set:
  assumes "hour \<in> fst ` set l" and "\<forall>dur. (hour, dur) \<in> set l \<longrightarrow> dur = 1"
  shows "set (toggle_slots hour (toggle_slots hour l)) = set l"
  unfolding toggle_slots_present[OF assms(1)] using assms by force

lemma toggle_slots_one_hour:
  "list_all (\<lambda>(h, dur). dur = 1) l \<Longrightarrow> list_all (\<lambda>(h, dur). dur = 1) (toggle_slots hour l)"
  by (auto simp: toggle_slots_def list_all_iff)

lemma one_hour_update:
  assumes "one_hour_slots a" and "list_all (\<lambda>(h, dur). dur = 1) l"
    and "busy_slots a' = (busy_slots a)(d := l)"
  shows "one_hour_slots a'"
  using assms unfolding one_hour_slots_def by (auto simp: list_all_iff)

lemma toggle_slots_twice_set:
  assumes "list_all (\<lambda>(h, dur). dur = 1) l"
  shows "set (toggle_slots hour (toggle_slots hour l)) = set l"
proof (cases "hour \<in> fst ` set l")
  case True
  from assms have "\<forall>dur. (hour, dur) \<in> set l \<longrightarrow> dur = 1" by (auto simp: list_all_iff)
  with True show ?thesis by (rule toggle_slots_present_set)
next
  case False
  then show ?thesis by (simp add: toggle_slots_absent)
qed

lemma toggle_slots_remove:
  assumes "list_all (\<lambda>(h, dur). dur = 1) l" and "hour \<in> fst ` set l"
  shows "set (toggle_slots hour l) = {x \<in> set l. fst x \<noteq> hour} \<and>
         set l = insert (hour, 1) (set (toggle_slots hour l))"
proof -
  have f: "set (toggle_slots hour l) = {x \<in> set l. fst x \<noteq> hour}"
    using assms(2) by (auto simp: toggle_slots_def)
  have "\<And>x. x \<in> set l \<Longrightarrow> fst x = hour \<Longrightarrow> x = (hour, 1)"
    using assms(1) by (auto simp: list_all_iff)
  moreover have "(hour, 1) \<in> set l"
    using assms by (auto simp: list_all_iff)
  ultimately have "set l = insert (hour, 1) {x \<in> set l. fst x \<noteq> hour}" by blast
  with f show ?thesis by simp
qed

lemma toggle_busy_one_hour:
  assumes "one_hour_slots a" and "toggle_busy d h a = Inr a'"
  shows "one_hour_slots a'"
proof -
  from assms(2) have dw: "d \<in> set WEEKDAYS"
    and b: "busy_slots a' = (busy_slots a)(d := toggle_slots h (busy_slots a d))"
    by (auto simp: toggle_busy_def split: if_splits)
  from assms(1) dw have "list_all (\<lambda>(h, dur). dur = 1) (busy_slots a d)"
    unfolding one_hour_slots_def by (simp add: list_all_iff)
  then have "list_all (\<lambda>(h, dur). dur = 1) (toggle_slots h (busy_slots a d))"
    by (rule toggle_slots_one_hour)
  with assms(1) show ?thesis using b by (rule one_hour_update)
qed

lemma clicks_one_hour:
  "one_hour_slots a \<Longrightarrow> clicks cs a = Inr a' \<Longrightarrow> one_hour_slots a'"
proof (induction cs arbitrary: a)
  case Nil
  then show ?case by simp
next
  case (Cons c cs)
  obtain d h where c: "c = (d, h)" by (cases c)
  from Cons.prems(2) obtain a1 where t: "toggle_busy d h a = Inr a1" and r: "clicks cs a1 = Inr a'"
    unfolding c by (cases "toggle_busy d h a") simp_all
  from Cons.prems(1) t have "one_hour_slots a1" by (rule toggle_busy_one_hour)
  then show ?case using r by (rule Cons.IH)
qed

lemma initial_one_hour: "one_hour_slots (initial_app available)"
  by (simp add: one_hour_slots_def initial_app_def initial_busy_slots_def WEEKDAYS_def)

lemma two_slot_app_reached:
  "\<exists>a. clicks [(''Monday'', 9), (''Monday'', 10)] (initial_app True) = Inr a \<and>
     busy_slots a = busy_slots two_slot_app"
  by (simp add: toggle_busy_def toggle_slots_def WEEKDAYS_def initial_app_def
      initial_busy_slots_def two_slot_app_def)

text \<open>
  Claim C8. The busy-time model is the set of intervals of each weekday, all of them one
  hour long: this holds in the initial state and every toggle preserves it. For every such
  state, every weekday \<open>d\<close> and every hour \<open>h\<close> of the grid, \<open>toggle(d, h)\<close> adds
  the one-hour interval at \<open>h\<close> to the set of \<open>d\<close> when no interval at \<open>h\<close> is
  present (it is appended to the day's list) and removes every interval at \<open>h\<close> when
  one is present; the other days are left alone. Toggling the same \<open>(d, h)\<close> twice in
  succession returns the busy-time model to its prior state: every weekday has exactly the
  set of intervals it had before.
\<close>

theorem toggle_busy_restores:
  "one_hour_slots (initial_app available :: 'f app) \<and>
   (one_hour_slots (a :: 'f app) \<and> d \<in> set WEEKDAYS \<and> 0 \<le> h \<and> h < 24 \<longrightarrow>
     (\<exists>a' a''. toggle_busy d h a = Inr a' \<and> toggle_busy d h a' = Inr a'' \<and>
        (h \<notin> fst ` busy_model a d \<longrightarrow>
           busy_slots a' d = busy_slots a d @ [(h, 1)] \<and>
           busy_model a' d = insert (h, 1) (busy_model a d)) \<and>
        (h \<in> fst ` busy_model a d \<longrightarrow>
           busy_slots a' d = filter (\<lambda>(h', dur). h' \<noteq> h) (busy_slots a d) \<and>
           busy_model a' d = {x \<in> busy_model a d. fst x \<noteq> h} \<and>
           busy_model a d = insert (h, 1) (busy_model a' d)) \<and>
        (\<forall>d'. d' \<noteq> d \<longrightarrow> busy_slots a' d' = busy_slots a d') \<and>
        one_hour_slots a' \<and> one_hour_slots a'' \<and>
        (\<forall>d'. busy_model a'' d' = busy_model a d')))"
proof (rule conjI)
  show "one_hour_slots (initial_app available :: 'f app)"
    by (simp add: one_hour_slots_def initial_app_def initial_busy_slots_def WEEKDAYS_def)
next
  show "one_hour_slots a \<and> d \<in> set WEEKDAYS \<and> 0 \<le> h \<and> h < 24 \<longrightarrow>
     (\<exists>a' a''. toggle_busy d h a = Inr a' \<and> toggle_busy d h a' = Inr a'' \<and>
        (h \<notin> fst ` busy_model a d \<longrightarrow>
           busy_slots a' d = busy_slots a d @ [(h, 1)] \<and>
           busy_model a' d = insert (h, 1) (busy_model a d)) \<and>
        (h \<in> fst ` busy_model a d \<longrightarrow>
           busy_slots a' d = filter (\<lambda>(h', dur). h' \<noteq> h) (busy_slots a d) \<and>
           busy_model a' d = {x \<in> busy_model a d. fst x \<noteq> h} \<and>
           busy_model a d = insert (h, 1) (busy_model a' d)) \<and>
        (\<forall>d'. d' \<noteq> d \<longrightarrow> busy_slots a' d' = busy_slots a d') \<and>
        one_hour_slots a' \<and> one_hour_slots a'' \<and>
        (\<forall>d'. busy_model a'' d' = busy_model a d'))"
  proof
    assume asm: "one_hour_slots a \<and> d \<in> set WEEKDAYS \<and> 0 \<le> h \<and> h < 24"
    then have inv: "one_hour_slots a" and dw: "d \<in> set WEEKDAYS" and h0: "0 \<le> h"
      and h1: "h < 24" by simp_all
    from inv dw have l1: "list_all (\<lambda>(h, dur). dur = 1) (busy_slots a d)"
      unfolding one_hour_slots_def by (simp add: list_all_iff)
    obtain a' where a': "toggle_busy d h a = Inr a'"
      and b': "busy_slots a' = (busy_slots a)(d := toggle_slots h (busy_slots a d))"
      using dw h0 h1 by (simp add: toggle_busy_def)
    obtain a'' where a'': "toggle_busy d h a' = Inr a''"
      and b'': "busy_slots a'' = (busy_slots a')(d := toggle_slots h (busy_slots a' d))"
      using dw h0 h1 by (simp add: toggle_busy_def)
    have bd: "busy_slots a' d = toggle_slots h (busy_slots a d)" unfolding b' by simp
    have l2: "list_all (\<lambda>(h, dur). dur = 1) (busy_slots a' d)"
      unfolding bd using l1 by (rule toggle_slots_one_hour)
    have i1: "one_hour_slots a'"
      using inv toggle_slots_one_hour[OF l1] b' by (rule one_hour_update)
    have i2: "one_hour_slots a''"
      using i1 toggle_slots_one_hour[OF l2] b'' by (rule one_hour_update)
    have 1: "busy_slots a' d = busy_slots a d @ [(h, 1)] \<and>
           busy_model a' d = insert (h, 1) (busy_model a d)"
      if "h \<notin> fst ` busy_model a d"
      using that unfolding busy_model_def bd by (simp add: toggle_slots_def)
    have 2: "busy_slots a' d = filter (\<lambda>(h', dur). h' \<noteq> h) (busy_slots a d) \<and>
           busy_model a' d = {x \<in> busy_model a d. fst x \<noteq> h} \<and>
           busy_model a d = insert (h, 1) (busy_model a' d)"
      if p: "h \<in> fst ` busy_model a d"
    proof -
      from p have p': "h \<in> fst ` set (busy_slots a d)" unfolding busy_model_def .
      then have f: "busy_slots a' d = filter (\<lambda>(h', dur). h' \<noteq> h) (busy_slots a d)"
        unfolding bd by (simp add: toggle_slots_def)
      note r = toggle_slots_remove[OF l1 p']
      have g: "busy_model a' d = {x \<in> busy_model a d. fst x \<noteq> h}"
        unfolding busy_model_def bd by (rule r[THEN conjunct1])
      have i: "busy_model a d = insert (h, 1) (busy_model a' d)"
        unfolding busy_model_def bd by (rule r[THEN conjunct2])
      from f g i show ?thesis by (intro conjI)
    qed
    have 3: "\<forall>d'. d' \<noteq> d \<longrightarrow> busy_slots a' d' = busy_slots a d'" unfolding b' by simp
    have 4: "\<forall>d'. busy_model a'' d' = busy_model a d'"
    proof
      fix d'
      show "busy_model a'' d' = busy_model a d'"
      proof (cases "d' = d")
        case True
        have "busy_slots a'' d = toggle_slots h (toggle_slots h (busy_slots a d))"
          unfolding b'' b' by simp
        then show ?thesis
          unfolding busy_model_def True using toggle_slots_twice_set[OF l1, of h] by simp
      next
        case False
        then show ?thesis unfolding busy_model_def b'' b' by simp
      qed
    qed
    have c1: "h \<notin> fst ` busy_model a d \<longrightarrow>
           busy_slots a' d = busy_slots a d @ [(h, 1)] \<and>
           busy_model a' d = insert (h, 1) (busy_model a d)"
      by (rule impI) (rule 1)
    have c2: "h \<in> fst ` busy_model a d \<longrightarrow>
           busy_slots a' d = filter (\<lambda>(h', dur). h' \<noteq> h) (busy_slots a d) \<and>
           busy_model a' d = {x \<in> busy_model a d. fst x \<noteq> h} \<and>
           busy_model a d = insert (h, 1) (busy_model a' d)"
      by (rule impI) (rule 2)
    from a' a'' c1 c2 3 i1 i2 4
    have "toggle_busy d h a = Inr a' \<and> toggle_busy d h a' = Inr a'' \<and>
        (h \<notin> fst ` busy_model a d \<longrightarrow>
           busy_slots a' d = busy_slots a d @ [(h, 1)] \<and>
           busy_model a' d = insert (h, 1) (busy_model a d)) \<and>
        (h \<in> fst ` busy_model a d \<longrightarrow>
           busy_slots a' d = filter (\<lambda>(h', dur). h' \<noteq> h) (busy_slots a d) \<and>
           busy_model a' d = {x \<in> busy_model a d. fst x \<noteq> h} \<and>
           busy_model a d = insert (h, 1) (busy_model a' d)) \<and>
        (\<forall>d'. d' \<noteq> d \<longrightarrow> busy_slots a' d' = busy_slots a d') \<and>
        one_hour_slots a' \<and> one_hour_slots a'' \<and>
        (\<forall>d'. busy_model a'' d' = busy_model a d')"
      by (intro conjI)
    then show "\<exists>a' a''. toggle_busy d h a = Inr a' \<and> toggle_busy d h a' = Inr a'' \<and>
        (h \<notin> fst ` busy_model a d \<longrightarrow>
           busy_slots a' d = busy_slots a d @ [(h, 1)] \<and>
           busy_model a' d = insert (h, 1) (busy_model a d)) \<and>
        (h \<in> fst ` busy_model a d \<longrightarrow>
           busy_slots a' d = filter (\<lambda>(h', dur). h' \<noteq> h) (busy_slots a d) \<and>
           busy_model a' d = {x \<in> busy_model a d. fst x \<noteq> h} \<and>
           busy_model a d = insert (h, 1) (busy_model a' d)) \<and>
        (\<forall>d'. d' \<noteq> d \<longrightarrow> busy_slots a' d' = busy_slots a d') \<and>
        one_hour_slots a' \<and> one_hour_slots a'' \<and>
        (\<forall>d'. busy_model a'' d' = busy_model a d')"
      by (intro exI)
  qed
qed

theorem toggle_busy_restores_witness:
  "one_hour_slots two_slot_app \<and> ''Monday'' \<in> set WEEKDAYS \<and> (0::int) \<le> 9 \<and> (9::int) < 24 \<and>
   9 \<in> fst ` busy_model two_slot_app ''Monday'' \<and>
   busy_model two_slot_app ''Monday'' = {(9, 1), (10, 1)} \<and>
   (\<exists>a' a''. toggle_busy ''Monday'' 9 two_slot_app = Inr a' \<and>
      toggle_busy ''Monday'' 9 a' = Inr a'' \<and>
      busy_slots a' ''Monday'' = [(10, 1)] \<and>
      busy_model a'' ''Monday'' = {(9, 1), (10, 1)})"
proof -
  have s: "busy_slots two_slot_app ''Monday'' = [(9, 1), (10, 1)]"
    by (simp add: two_slot_app_def initial_app_def)
  have inv: "one_hour_slots two_slot_app"
    by (simp add: one_hour_slots_def two_slot_app_def initial_app_def initial_busy_slots_def
        WEEKDAYS_def)
  have m: "''Monday'' \<in> set WEEKDAYS" by (simp add: WEEKDAYS_def)
  have bm: "busy_model two_slot_app ''Monday'' = {(9, 1), (10, 1)}"
    unfolding busy_model_def s by simp
  have p: "9 \<in> fst ` busy_model two_slot_app ''Monday''" unfolding bm by simp
  have hyp: "one_hour_slots two_slot_app \<and> ''Monday'' \<in> set WEEKDAYS \<and> (0::int) \<le> 9 \<and> (9::int) < 24"
    using inv m by simp
  from toggle_busy_restores [of True two_slot_app "''Monday''" 9, THEN conjunct2, THEN mp, OF hyp]
  obtain a' a'' where t1: "toggle_busy ''Monday'' 9 two_slot_app = Inr a'"
    and t2: "toggle_busy ''Monday'' 9 a' = Inr a''"
    and rm: "9 \<in> fst ` busy_model two_slot_app ''Monday'' \<longrightarrow>
           busy_slots a' ''Monday'' = filter (\<lambda>(h', dur). h' \<noteq> 9) (busy_slots two_slot_app ''Monday'') \<and>
           busy_model a' ''Monday'' = {x \<in> busy_model two_slot_app ''Monday''. fst x \<noteq> 9} \<and>
           busy_model two_slot_app ''Monday'' = insert (9, 1) (busy_model a' ''Monday'')"
    and restored: "\<forall>d'. busy_model a'' d' = busy_model two_slot_app d'"
    by (elim exE conjE)
  from rm p have "busy_slots a' ''Monday'' = filter (\<lambda>(h', dur). h' \<noteq> 9) (busy_slots two_slot_app ''Monday'') \<and>
           busy_model a' ''Monday'' = {x \<in> busy_model two_slot_app ''Monday''. fst x \<noteq> 9} \<and>
           busy_model two_slot_app ''Monday'' = insert (9, 1) (busy_model a' ''Monday'')" by (rule mp)
  then have "busy_slots a' ''Monday'' =
      filter (\<lambda>(h', dur). h' \<noteq> 9) (busy_slots two_slot_app ''Monday'')" by (rule conjunct1)
  then have r1: "busy_slots a' ''Monday'' = [(10, 1)]" unfolding s by simp
  from restored have "busy_model a'' ''Monday'' = busy_model two_slot_app ''Monday''" by (rule spec)
  then have r2: "busy_model a'' ''Monday'' = {(9, 1), (10, 1)}" unfolding bm .
  from t1 t2 r1 r2 have "\<exists>a' a''. toggle_busy ''Monday'' 9 two_slot_app = Inr a' \<and>
      toggle_busy ''Monday'' 9 a' = Inr a'' \<and>
      busy_slots a' ''Monday'' = [(10, 1)] \<and>
      busy_model a'' ''Monday'' = {(9, 1), (10, 1)}" by blast
  with inv m p bm show ?thesis by simp
qed


subsection \<open>The scheduling context\<close>














subsection \<open>A failed generation attempt\<close>

text \<open>
  Claim C9. Called without a client, the scheduler client raises (the configuration
  error); and when the client is unavailable or the external call raises, the attempt
  returns with the application object exactly as it was, in particular the previously
  generated blocks and the reminder state, and no exception leaves the callback.
\<close>

theorem generate_schedule_failure:
  "gpt_generate_schedule False service ctx = Inl ''OpenAI client not available'' \<and>
   (\<not> gpt_available a \<or> isl (service (build_schedule_context a)) \<longrightarrow>
      app_after (generate_schedule service a) = a \<and>
      raised (generate_schedule service a) = None)"
  by (auto simp: generate_schedule_def gpt_generate_schedule_def isl_def)

theorem generate_schedule_failure_witness:
  "isl ((\<lambda>ctx. Inl ''connection refused'' :: string + schedule) (build_schedule_context running_app)) \<and>
   app_after (generate_schedule (\<lambda>ctx. Inl ''connection refused'') running_app) = running_app \<and>
   \<not> gpt_available (running_app\<lparr>gpt_available := False\<rparr>) \<and>
   app_after (generate_schedule (\<lambda>ctx. Inr example_schedule)
     (running_app\<lparr>gpt_available := False\<rparr>)) = running_app\<lparr>gpt_available := False\<rparr> \<and>
   generated_blocks running_app \<noteq> [] \<and> reminder_alive running_app"
  using generate_schedule_failure [of "\<lambda>ctx. Inl ''connection refused''"
      "build_schedule_context running_app" running_app]
    generate_schedule_failure [of "\<lambda>ctx. Inr example_schedule"
      "build_schedule_context running_app"
      "running_app\<lparr>gpt_available := False\<rparr>"]
  by (simp add: running_app_def)

subsection \<open>The fire time of a reminder\<close>

lemma day_pos: "0 < US_PER_DAY"
  by (simp add: US_PER_DAY_def)

lemma weekday_range: "0 \<le> weekday now \<and> weekday now \<le> 6"
  unfolding weekday_def by simp

lemma block_date_div:
  "(now - weekday now * US_PER_DAY + i * US_PER_DAY) div US_PER_DAY =
     now div US_PER_DAY - weekday now + i"
proof -
  have e: "now - weekday now * US_PER_DAY + i * US_PER_DAY =
      now + (i - weekday now) * US_PER_DAY"
    by (simp add: algebra_simps)
  have d: "(now + (i - weekday now) * US_PER_DAY) div US_PER_DAY =
      (i - weekday now) + now div US_PER_DAY"
    using day_pos by simp
  show ?thesis unfolding e d by simp
qed

lemma monday_is_monday: "weekday (most_recent_monday now) = 0"
  unfolding most_recent_monday_def weekday_def[of "_ * _"] using day_pos
  by (simp add: weekday_def)

lemma day_floor:
  "(now div US_PER_DAY) * US_PER_DAY \<le> now \<and> now < (now div US_PER_DAY + 1) * US_PER_DAY"
proof -
  have e: "US_PER_DAY * (now div US_PER_DAY) + now mod US_PER_DAY = now"
    by (rule mult_div_mod_eq)
  have l: "0 \<le> now mod US_PER_DAY" using day_pos by (rule pos_mod_sign)
  have u: "now mod US_PER_DAY < US_PER_DAY" using day_pos by (rule pos_mod_bound)
  have c: "(now div US_PER_DAY) * US_PER_DAY = US_PER_DAY * (now div US_PER_DAY)"
    by (rule mult.commute)
  have s: "(now div US_PER_DAY + 1) * US_PER_DAY = US_PER_DAY * (now div US_PER_DAY) + US_PER_DAY"
    by (simp add: algebra_simps)
  from e l u show ?thesis unfolding c s by linarith
qed

lemma monday_le_now: "most_recent_monday now \<le> now"
proof -
  have "(now div US_PER_DAY - weekday now) * US_PER_DAY \<le> (now div US_PER_DAY) * US_PER_DAY"
    using weekday_range[of now] day_pos by (simp add: mult_right_mono)
  with day_floor[of now] show ?thesis unfolding most_recent_monday_def by linarith
qed

lemma now_lt_next_monday: "now < most_recent_monday now + 7 * US_PER_DAY"
proof -
  have "(now div US_PER_DAY + 1) * US_PER_DAY \<le>
      (now div US_PER_DAY - weekday now + 7) * US_PER_DAY"
    using weekday_range[of now] day_pos by (simp add: mult_right_mono)
  moreover have "(now div US_PER_DAY - weekday now + 7) * US_PER_DAY =
      most_recent_monday now + 7 * US_PER_DAY"
    unfolding most_recent_monday_def by (simp add: algebra_simps)
  ultimately show ?thesis using day_floor[of now] by linarith
qed

lemma block_fire_time_eq:
  assumes "index_of WEEKDAYS (day block) = Inr i"
    and "start_hour_minute (start_time block) = Inr (h, m)"
    and "0 \<le> h" and "h \<le> 23" and "0 \<le> m" and "m \<le> 59"
  shows "block_fire_time now block = Inr (next_fire now (int i) h m)"
proof -
  have d: "(now div US_PER_DAY - weekday now + int i) * US_PER_DAY =
      (now div US_PER_DAY - weekday now) * US_PER_DAY + int i * US_PER_DAY"
    by (rule distrib_right)
  show ?thesis
    using assms
    by (simp add: block_fire_time_def replace_hm_def block_date_div next_fire_def
        fire_candidate_def most_recent_monday_def Let_def d)
qed

lemma next_fire_future:
  assumes "0 \<le> i" and "0 \<le> h" and "0 \<le> m"
  shows "now \<le> next_fire now i h m"
proof (cases "fire_candidate now i h m < now")
  case True
  have "0 \<le> i * US_PER_DAY" "0 \<le> h * US_PER_HOUR" "0 \<le> m * US_PER_MINUTE"
    using assms by (simp_all add: US_PER_DAY_def US_PER_HOUR_def US_PER_MINUTE_def)
  then have "most_recent_monday now \<le> fire_candidate now i h m"
    unfolding fire_candidate_def by linarith
  with now_lt_next_monday[of now] True show ?thesis unfolding next_fire_def by simp
next
  case False
  then show ?thesis unfolding next_fire_def by simp
qed

lemma next_fire_within_week:
  assumes "i \<le> 6" and "h \<le> 23" and "m \<le> 59"
  shows "next_fire now i h m < now + 7 * US_PER_DAY"
proof (cases "fire_candidate now i h m < now")
  case True
  then show ?thesis unfolding next_fire_def by simp
next
  case False
  have "i * US_PER_DAY \<le> 6 * US_PER_DAY" "h * US_PER_HOUR \<le> 23 * US_PER_HOUR"
    "m * US_PER_MINUTE \<le> 59 * US_PER_MINUTE"
    using assms by (simp_all add: US_PER_DAY_def US_PER_HOUR_def US_PER_MINUTE_def)
  then have "fire_candidate now i h m < most_recent_monday now + 7 * US_PER_DAY"
    unfolding fire_candidate_def by (simp add: US_PER_DAY_def US_PER_HOUR_def US_PER_MINUTE_def)
  with monday_le_now[of now] False show ?thesis unfolding next_fire_def by simp
qed

lemma monday_midnight: "most_recent_monday now mod US_PER_DAY = 0"
  unfolding most_recent_monday_def by simp

lemma candidate_day:
  assumes "0 \<le> i" and "i \<le> 6" and "0 \<le> h" and "h \<le> 23" and "0 \<le> m" and "m \<le> 59"
  shows "weekday (fire_candidate now i h m) = i \<and>
         fire_candidate now i h m mod US_PER_DAY = h * US_PER_HOUR + m * US_PER_MINUTE"
proof -
  define q where "q = now div US_PER_DAY - weekday now"
  define r where "r = h * US_PER_HOUR + m * US_PER_MINUTE"
  have r0: "0 \<le> r" and r1: "r < US_PER_DAY"
    using assms unfolding r_def by (simp_all add: US_PER_DAY_def US_PER_HOUR_def US_PER_MINUTE_def)
  have c: "fire_candidate now i h m = r + (q + i) * US_PER_DAY"
    unfolding fire_candidate_def most_recent_monday_def q_def r_def by (simp add: algebra_simps)
  have dv: "fire_candidate now i h m div US_PER_DAY = q + i"
    unfolding c using r0 r1 day_pos by simp
  have md: "fire_candidate now i h m mod US_PER_DAY = r"
    unfolding c using r0 r1 by simp
  have q7: "q mod 7 = 0"
    unfolding q_def weekday_def by (simp add: minus_mod_self2 mod_eq_0_iff_dvd dvd_minus_mod)
  then have "(q + i) mod 7 = i mod 7" by (metis add_0 mod_add_left_eq)
  with assms have "(q + i) mod 7 = i" by simp
  with dv md show ?thesis unfolding weekday_def r_def by simp
qed

lemmas fire_eval = start_hour_minute_def py_int_def strip_ws_def is_space_def nat_literal_def
  is_digit_def digit_val_def WEEKDAYS_def US_PER_DAY_def US_PER_HOUR_def US_PER_MINUTE_def

text \<open>
  Claim C6, as stated, fails. The loop splits the start time at the colons and converts the
  pieces with \<^verbatim>\<open>int\<close>, and the parser accepts any string as a start time: for the
  parsed block Monday \<open>9am\<close> no fire time is computed, and the loop raises
  \<^verbatim>\<open>ValueError\<close> before its first pass. And the fire time is not always after
  \<open>now\<close>: the week is added only when the candidate is before \<open>now\<close>, so for the
  block Monday 09:30, read on a Monday at 09:30:00 exactly, the fire time is \<open>now\<close>
  itself.
\<close>

theorem unparsed_start_counterexample:
  "parse_schedule unparsed_schedule =
     Inr [\<lparr>title = ''Gym'', day = ''Monday'', start_time = ''9am'', end_time = ''10am'',
           details = []\<rparr>] \<and>
   block_fire_time 0
     \<lparr>title = ''Gym'', day = ''Monday'', start_time = ''9am'', end_time = ''10am'',
      details = []\<rparr> = Inl ValueError \<and>
   reminder_loop
     [\<lparr>title = ''Gym'', day = ''Monday'', start_time = ''9am'', end_time = ''10am'',
       details = []\<rparr>] 0 [0] = Inl ValueError \<and>
   block_fire_time (9 * US_PER_HOUR + 30 * US_PER_MINUTE)
     \<lparr>title = ''Plan'', day = ''Monday'', start_time = ''09:30'', end_time = ''10:30'',
      details = []\<rparr> = Inr (9 * US_PER_HOUR + 30 * US_PER_MINUTE)"
proof -
  have p: "parse_schedule unparsed_schedule =
     Inr [\<lparr>title = ''Gym'', day = ''Monday'', start_time = ''9am'', end_time = ''10am'',
           details = []\<rparr>]"
    by (simp add: unparsed_schedule_def parse_schedule_def py_sorted_def entry_block_def
        WEEKDAYS_def block_key_def)
  have f: "block_fire_time 0
     \<lparr>title = ''Gym'', day = ''Monday'', start_time = ''9am'', end_time = ''10am'',
      details = []\<rparr> = Inl ValueError"
    by (simp add: block_fire_time_def fire_eval)
  have l: "reminder_loop
     [\<lparr>title = ''Gym'', day = ''Monday'', start_time = ''9am'', end_time = ''10am'',
       details = []\<rparr>] 0 [0] = Inl ValueError"
    by (simp add: reminder_loop_def f)
  have e: "block_fire_time (9 * US_PER_HOUR + 30 * US_PER_MINUTE)
     \<lparr>title = ''Plan'', day = ''Monday'', start_time = ''09:30'', end_time = ''10:30'',
      details = []\<rparr> = Inr (9 * US_PER_HOUR + 30 * US_PER_MINUTE)"
    by (simp add: block_fire_time_def fire_eval replace_hm_def weekday_def)
  from p f l e show ?thesis by (intro conjI)
qed

text \<open>
  Claim C6, amended. For every block whose weekday is one of the seven canonical names, the
  \<open>i\<close>-th, and whose start time splits at the colon into two integers, an hour \<open>h\<close>
  from 0 to 23 and a minute \<open>m\<close> from 0 to 59, and for every \<open>now\<close>, the fire time
  that the loop computes is the candidate, plus exactly one week if and only if the
  candidate is before \<open>now\<close>. The candidate is the anchor plus \<open>i\<close> days, \<open>h\<close>
  hours and \<open>m\<close> minutes: it falls on the weekday \<open>i\<close> at the time of day
  \<open>h:m\<close>. The anchor is the midnight of a Monday, at or before \<open>now\<close> and less than
  a week before it. Consequently the fire time is never in the past: it is at or after
  \<open>now\<close>, and less than one week after it.
\<close>

theorem block_fire_time_spec:
  assumes "index_of WEEKDAYS (day block) = Inr i"
    and "start_hour_minute (start_time block) = Inr (h, m)"
    and "0 \<le> h" and "h \<le> 23" and "0 \<le> m" and "m \<le> 59"
  shows "block_fire_time now block = Inr (next_fire now (int i) h m) \<and>
         weekday (most_recent_monday now) = 0 \<and>
         most_recent_monday now mod US_PER_DAY = 0 \<and>
         most_recent_monday now \<le> now \<and> now < most_recent_monday now + 7 * US_PER_DAY \<and>
         weekday (fire_candidate now (int i) h m) = int i \<and>
         fire_candidate now (int i) h m mod US_PER_DAY = h * US_PER_HOUR + m * US_PER_MINUTE \<and>
         now \<le> next_fire now (int i) h m \<and>
         next_fire now (int i) h m < now + 7 * US_PER_DAY"
proof -
  have "i < length WEEKDAYS" using index_of_bound[OF assms(1)] by simp
  then have i6: "int i \<le> 6" by (simp add: WEEKDAYS_def)
  have i0: "0 \<le> int i" by simp
  note 1 = block_fire_time_eq[OF assms, of now]
  note 2 = monday_is_monday[of now]
  note 3 = monday_midnight[of now]
  note 4 = monday_le_now[of now]
  note 5 = now_lt_next_monday[of now]
  note 6 = candidate_day[OF i0 i6 assms(3-6), of now]
  note 7 = next_fire_future[OF i0 assms(3) assms(5), of now]
  note 8 = next_fire_within_week[OF i6 assms(4) assms(6), of now]
  from 1 2 3 4 5 6 7 8 show ?thesis by blast
qed

theorem block_fire_time_spec_witness:
  "index_of WEEKDAYS (day \<lparr>title = ''Plan'', day = ''Monday'', start_time = ''09:30'',
       end_time = ''10:30'', details = []\<rparr>) = Inr 0 \<and>
   start_hour_minute (start_time \<lparr>title = ''Plan'', day = ''Monday'', start_time = ''09:30'',
       end_time = ''10:30'', details = []\<rparr>) = Inr (9, 30) \<and>
   block_fire_time (2 * US_PER_DAY + 10 * US_PER_HOUR)
     \<lparr>title = ''Plan'', day = ''Monday'', start_time = ''09:30'', end_time = ''10:30'',
      details = []\<rparr> = Inr (7 * US_PER_DAY + 9 * US_PER_HOUR + 30 * US_PER_MINUTE) \<and>
   block_fire_time (9 * US_PER_HOUR)
     \<lparr>title = ''Plan'', day = ''Monday'', start_time = ''09:30'', end_time = ''10:30'',
      details = []\<rparr> = Inr (9 * US_PER_HOUR + 30 * US_PER_MINUTE)"
proof -
  let ?b = "\<lparr>title = ''Plan'', day = ''Monday'', start_time = ''09:30'', end_time = ''10:30'',
      details = []\<rparr>"
  have i: "index_of WEEKDAYS (day ?b) = Inr 0" by (simp add: WEEKDAYS_def)
  have s: "start_hour_minute (start_time ?b) = Inr (9, 30)" by (simp add: fire_eval)
  have r: "(0::int) \<le> 9" "(9::int) \<le> 23" "(0::int) \<le> 30" "(30::int) \<le> 59" by simp_all
  have n1: "next_fire (2 * US_PER_DAY + 10 * US_PER_HOUR) (int 0) 9 30 =
      7 * US_PER_DAY + 9 * US_PER_HOUR + 30 * US_PER_MINUTE"
    by (simp add: next_fire_def fire_candidate_def most_recent_monday_def weekday_def
        US_PER_DAY_def US_PER_HOUR_def US_PER_MINUTE_def)
  have n2: "next_fire (9 * US_PER_HOUR) (int 0) 9 30 = 9 * US_PER_HOUR + 30 * US_PER_MINUTE"
    by (simp add: next_fire_def fire_candidate_def most_recent_monday_def weekday_def
        US_PER_DAY_def US_PER_HOUR_def US_PER_MINUTE_def)
  from block_fire_time_spec [OF i s r, of "2 * US_PER_DAY + 10 * US_PER_HOUR"]
  have f1: "block_fire_time (2 * US_PER_DAY + 10 * US_PER_HOUR) ?b =
      Inr (7 * US_PER_DAY + 9 * US_PER_HOUR + 30 * US_PER_MINUTE)"
    unfolding n1 by (elim conjE)
  from block_fire_time_spec [OF i s r, of "9 * US_PER_HOUR"]
  have f2: "block_fire_time (9 * US_PER_HOUR) ?b = Inr (9 * US_PER_HOUR + 30 * US_PER_MINUTE)"
    unfolding n2 by (elim conjE)
  from i s f1 f2 show ?thesis by (intro conjI)
qed

subsection \<open>A reminder run\<close>

lemma tick_props:
  "tick current es shown = (ds, shown') \<Longrightarrow>
     shown' = shown \<union> block_identifier ` set ds \<and>
     distinct (map block_identifier ds) \<and>
     block_identifier ` set ds \<inter> shown = {} \<and>
     (\<forall>b \<in> set ds. \<exists>dt. (dt, b) \<in> set es \<and> in_window dt current)"
proof (induction es arbitrary: shown ds shown')
  case Nil
  then show ?case by simp
next
  case (Cons e es)
  obtain dt b where e: "e = (dt, b)" by (cases e)
  show ?case
  proof (cases "dt \<le> current \<and> current < dt + US_PER_MINUTE \<and> block_identifier b \<notin> shown")
    case True
    obtain ds0 sh0 where t: "tick current es (insert (block_identifier b) shown) = (ds0, sh0)"
      by (cases "tick current es (insert (block_identifier b) shown)")
    from Cons.prems True t e have r: "ds = b # ds0" "shown' = sh0" by simp_all
    note ih = Cons.IH[OF t]
    from ih have 1: "sh0 = insert (block_identifier b) shown \<union> block_identifier ` set ds0"
      and 2: "distinct (map block_identifier ds0)"
      and 3: "block_identifier ` set ds0 \<inter> insert (block_identifier b) shown = {}"
      and 4: "\<forall>b' \<in> set ds0. \<exists>dt. (dt, b') \<in> set es \<and> in_window dt current"
      by blast+
    have a: "shown' = shown \<union> block_identifier ` set ds" unfolding r 1 by auto
    have b: "distinct (map block_identifier ds)" unfolding r using 2 3 by auto
    have c: "block_identifier ` set ds \<inter> shown = {}" unfolding r using 3 True by auto
    have d: "\<forall>b' \<in> set ds. \<exists>dt. (dt, b') \<in> set (e # es) \<and> in_window dt current"
      unfolding r e using 4 True by (auto simp: in_window_def)
    from a b c d show ?thesis by blast
  next
    case False
    with Cons.prems e have t: "tick current es shown = (ds, shown')" by auto
    note ih = Cons.IH[OF t]
    then have "\<forall>b' \<in> set ds. \<exists>dt. (dt, b') \<in> set (e # es) \<and> in_window dt current"
      by auto
    with ih show ?thesis by blast
  qed
qed

lemma tick_complete:
  "tick current es shown = (ds, shown') \<Longrightarrow> (dt, b) \<in> set es \<Longrightarrow> in_window dt current \<Longrightarrow>
     block_identifier b \<in> shown'"
proof (induction es arbitrary: shown ds shown')
  case Nil
  then show ?case by simp
next
  case (Cons e es)
  obtain dt' b' where e: "e = (dt', b')" by (cases e)
  have mono: "\<And>sh d s. tick current es sh = (d, s) \<Longrightarrow> sh \<subseteq> s"
    using tick_props by blast
  show ?case
  proof (cases "dt' \<le> current \<and> current < dt' + US_PER_MINUTE \<and> block_identifier b' \<notin> shown")
    case True
    obtain ds0 sh0 where t: "tick current es (insert (block_identifier b') shown) = (ds0, sh0)"
      by (cases "tick current es (insert (block_identifier b') shown)")
    from Cons.prems(1) True t e have r: "shown' = sh0" by simp
    show ?thesis
    proof (cases "(dt, b) \<in> set es")
      case True
      from Cons.IH[OF t True Cons.prems(3)] show ?thesis unfolding r .
    next
      case False
      with Cons.prems(2) e have "b = b'" by simp
      with mono[OF t] show ?thesis unfolding r by auto
    qed
  next
    case False
    with Cons.prems(1) e have t: "tick current es shown = (ds, shown')" by auto
    show ?thesis
    proof (cases "(dt, b) \<in> set es")
      case True
      from Cons.IH[OF t True Cons.prems(3)] show ?thesis .
    next
      case f: False
      with Cons.prems(2) e have eq: "b = b'" "dt = dt'" by simp_all
      with False Cons.prems(3) have "block_identifier b \<in> shown" by (simp add: in_window_def)
      with mono[OF t] show ?thesis by auto
    qed
  qed
qed

lemma shown_after_poll:
  "shown_after es currents shown = shown \<union> block_identifier ` set (concat (poll es currents shown))"
proof (induction currents arbitrary: shown)
  case Nil
  then show ?case by simp
next
  case (Cons c cs)
  obtain ds sh where t: "tick c es shown = (ds, sh)" by (cases "tick c es shown")
  from tick_props[OF t] have s: "sh = shown \<union> block_identifier ` set ds" by blast
  show ?case using Cons.IH[of sh] t s by auto
qed

lemma poll_distinct:
  "distinct (map block_identifier (concat (poll es currents shown))) \<and>
   block_identifier ` set (concat (poll es currents shown)) \<inter> shown = {}"
proof (induction currents arbitrary: shown)
  case Nil
  then show ?case by simp
next
  case (Cons c cs)
  obtain ds sh where t: "tick c es shown = (ds, sh)" by (cases "tick c es shown")
  note p = tick_props[OF t]
  from p have s: "sh = shown \<union> block_identifier ` set ds"
    and d: "distinct (map block_identifier ds)"
    and i: "block_identifier ` set ds \<inter> shown = {}" by blast+
  note ih = Cons.IH[of sh]
  from ih have d2: "distinct (map block_identifier (concat (poll es cs sh)))"
    and i2: "block_identifier ` set (concat (poll es cs sh)) \<inter> sh = {}" by blast+
  have e: "poll es (c # cs) shown = ds # poll es cs sh" using t by simp
  define A where "A = block_identifier ` set ds"
  define B where "B = block_identifier ` set (concat (poll es cs sh))"
  have i': "A \<inter> shown = {}" using i unfolding A_def .
  have i2': "B \<inter> (shown \<union> A) = {}" using i2 unfolding s A_def B_def .
  have ab: "A \<inter> B = {}" using i2' by blast
  have "set (map block_identifier ds) \<inter> set (map block_identifier (concat (poll es cs sh))) = {}"
    using ab unfolding A_def B_def by simp
  with d d2 have "distinct (map block_identifier ds @ map block_identifier (concat (poll es cs sh)))"
    by simp
  then have dd: "distinct (map block_identifier (ds @ concat (poll es cs sh)))"
    by simp
  have "(A \<union> B) \<inter> shown = {}" using i' i2' by blast
  then have "block_identifier ` set (ds @ concat (poll es cs sh)) \<inter> shown = {}"
    unfolding A_def B_def by (simp add: image_Un)
  with dd show ?case unfolding e by simp
qed

lemma poll_length: "length (poll es currents shown) = length currents"
proof (induction currents arbitrary: shown)
  case Nil
  then show ?case by simp
next
  case (Cons c cs)
  then show ?case by (cases "tick c es shown") simp
qed

lemma poll_tick:
  "k < length currents \<Longrightarrow>
   tick (currents ! k) es (shown_after es (take k currents) shown) =
     (poll es currents shown ! k, shown_after es (take (Suc k) currents) shown)"
proof (induction currents arbitrary: shown k)
  case Nil
  then show ?case by simp
next
  case (Cons c cs)
  obtain ds sh where t: "tick c es shown = (ds, sh)" by (cases "tick c es shown")
  show ?case
  proof (cases k)
    case 0
    then show ?thesis using t by simp
  next
    case (Suc j)
    with Cons.prems have j: "j < length cs" by simp
    from Cons.IH[OF j, of sh] show ?thesis using t Suc by simp
  qed
qed

lemma shown_after_mono:
  "j \<le> k \<Longrightarrow> shown_after es (take j currents) shown \<subseteq> shown_after es (take k currents) shown"
proof -
  assume jk: "j \<le> k"
  have app: "\<And>xs ys sh. shown_after es (xs @ ys) sh = shown_after es ys (shown_after es xs sh)"
  proof -
    fix xs ys sh show "shown_after es (xs @ ys) sh = shown_after es ys (shown_after es xs sh)"
      by (induction xs arbitrary: sh) simp_all
  qed
  have "take k currents = take j currents @ take (k - j) (drop j currents)"
    using jk by (metis le_add_diff_inverse take_add)
  then have "shown_after es (take k currents) shown =
      shown_after es (take (k - j) (drop j currents)) (shown_after es (take j currents) shown)"
    by (simp add: app)
  then show ?thesis using shown_after_poll by blast
qed

text \<open>
  Claim C7. In a run of the polling loop over the entries \<open>es\<close>, at the clock readings
  \<open>currents\<close> and from the set \<open>shown\<close> of the identities marked at the start
  (the empty set in \<^verbatim>\<open>_reminder_loop\<close>), the identities of the blocks delivered are
  pairwise distinct and none of them was marked at the start: at most one notification is
  delivered per identity. A block is delivered at the pass \<open>k\<close> only if the reading of
  that pass lies in the minute that starts at the fire time of one of its entries and its
  identity is not marked before the pass; it is marked after the pass. The marked
  identities are the initial ones and those delivered, and they only grow, so an identity
  once marked is delivered at no later pass. Every entry whose minute holds the reading of
  a pass is marked after that pass. The run of \<^verbatim>\<open>_reminder_loop\<close> makes one pass per
  reading and delivers pairwise distinct identities.
\<close>

theorem reminder_at_most_once:
  "distinct (map block_identifier (concat (poll es currents shown))) \<and>
   block_identifier ` set (concat (poll es currents shown)) \<inter> shown = {} \<and>
   shown_after es currents shown =
     shown \<union> block_identifier ` set (concat (poll es currents shown)) \<and>
   length (poll es currents shown) = length currents \<and>
   (\<forall>k < length currents. \<forall>b \<in> set (poll es currents shown ! k).
      (\<exists>dt. (dt, b) \<in> set es \<and> in_window dt (currents ! k)) \<and>
      block_identifier b \<notin> shown_after es (take k currents) shown \<and>
      block_identifier b \<in> shown_after es (take (Suc k) currents) shown) \<and>
   (\<forall>j k. j \<le> k \<longrightarrow>
      shown_after es (take j currents) shown \<subseteq> shown_after es (take k currents) shown) \<and>
   (\<forall>k < length currents. \<forall>(dt, b) \<in> set es. in_window dt (currents ! k) \<longrightarrow>
      block_identifier b \<in> shown_after es (take (Suc k) currents) shown) \<and>
   (\<forall>run. reminder_loop generated now currents = Inr run \<longrightarrow>
      distinct (map block_identifier (concat run)) \<and> length run = length currents)"
proof -
  note 1 = poll_distinct[of es currents shown]
  note 3 = shown_after_poll[of es currents shown]
  note 4 = poll_length[of es currents shown]
  have 5: "\<forall>k < length currents. \<forall>b \<in> set (poll es currents shown ! k).
      (\<exists>dt. (dt, b) \<in> set es \<and> in_window dt (currents ! k)) \<and>
      block_identifier b \<notin> shown_after es (take k currents) shown \<and>
      block_identifier b \<in> shown_after es (take (Suc k) currents) shown"
  proof (intro allI impI ballI)
    fix k b assume k: "k < length currents" and b: "b \<in> set (poll es currents shown ! k)"
    note p = tick_props[OF poll_tick[OF k, of es shown]]
    from p b show "(\<exists>dt. (dt, b) \<in> set es \<and> in_window dt (currents ! k)) \<and>
      block_identifier b \<notin> shown_after es (take k currents) shown \<and>
      block_identifier b \<in> shown_after es (take (Suc k) currents) shown"
      by blast
  qed
  have 6: "\<forall>j k. j \<le> k \<longrightarrow>
      shown_after es (take j currents) shown \<subseteq> shown_after es (take k currents) shown"
    using shown_after_mono by blast
  have 7: "\<forall>k < length currents. \<forall>(dt, b) \<in> set es. in_window dt (currents ! k) \<longrightarrow>
      block_identifier b \<in> shown_after es (take (Suc k) currents) shown"
  proof (intro allI impI ballI)
    fix k x assume k: "k < length currents" and x: "x \<in> set es"
    obtain dt b where xe: "x = (dt, b)" by (cases x)
    have "in_window dt (currents ! k) \<longrightarrow>
        block_identifier b \<in> shown_after es (take (Suc k) currents) shown"
      using tick_complete[OF poll_tick[OF k, of es shown], of dt b] x xe by blast
    then show "case x of (dt, b) \<Rightarrow> in_window dt (currents ! k) \<longrightarrow>
        block_identifier b \<in> shown_after es (take (Suc k) currents) shown"
      unfolding xe by simp
  qed
  have 8: "\<forall>run. reminder_loop generated now currents = Inr run \<longrightarrow>
      distinct (map block_identifier (concat run)) \<and> length run = length currents"
  proof (intro allI impI)
    fix run assume r: "reminder_loop generated now currents = Inr run"
    then obtain bbd where "run = poll bbd currents {}"
      unfolding reminder_loop_def by (cases "fire_times now generated []") auto
    then show "distinct (map block_identifier (concat run)) \<and> length run = length currents"
      using poll_distinct[of bbd currents "{}"] poll_length[of bbd currents "{}"] by simp
  qed
  from 1 3 4 5 6 7 8 show ?thesis by blast
qed

theorem reminder_at_most_once_witness:
  "reminder_loop (map snd reminder_blocks) (540 * US_PER_MINUTE)
     [570 * US_PER_MINUTE, 570 * US_PER_MINUTE + 30000000, 571 * US_PER_MINUTE,
      600 * US_PER_MINUTE] =
     Inr [[snd (reminder_blocks ! 0)], [], [], [snd (reminder_blocks ! 1)]] \<and>
   in_window (570 * US_PER_MINUTE) (570 * US_PER_MINUTE + 30000000) \<and>
   (0::nat) < length [570 * US_PER_MINUTE, 570 * US_PER_MINUTE + 30000000, 571 * US_PER_MINUTE,
      600 * US_PER_MINUTE] \<and>
   snd (reminder_blocks ! 0) \<in> set (poll reminder_blocks
     [570 * US_PER_MINUTE, 570 * US_PER_MINUTE + 30000000, 571 * US_PER_MINUTE,
      600 * US_PER_MINUTE] {} ! 0) \<and>
   block_identifier (snd (reminder_blocks ! 0)) \<in> shown_after reminder_blocks
     (take (Suc 0) [570 * US_PER_MINUTE, 570 * US_PER_MINUTE + 30000000, 571 * US_PER_MINUTE,
      600 * US_PER_MINUTE]) {} \<and>
   distinct (map block_identifier
     (concat [[snd (reminder_blocks ! 0)], [], [], [snd (reminder_blocks ! 1)]]))"
proof -
  let ?cs = "[570 * US_PER_MINUTE, 570 * US_PER_MINUTE + 30000000, 571 * US_PER_MINUTE,
      600 * US_PER_MINUTE]"
  let ?run = "[[snd (reminder_blocks ! 0)], [], [], [snd (reminder_blocks ! 1)]]"
  have f: "fire_times (540 * US_PER_MINUTE) (map snd reminder_blocks) [] = Inr reminder_blocks"
    by (simp add: reminder_blocks_def block_fire_time_def replace_hm_def weekday_def
        start_hour_minute_def py_int_def strip_ws_def is_space_def nat_literal_def
        is_digit_def digit_val_def WEEKDAYS_def US_PER_DAY_def US_PER_HOUR_def US_PER_MINUTE_def)
  have p: "poll reminder_blocks ?cs {} = ?run"
    by (simp add: reminder_blocks_def block_identifier_def US_PER_MINUTE_def)
  have r: "reminder_loop (map snd reminder_blocks) (540 * US_PER_MINUTE) ?cs = Inr ?run"
    unfolding reminder_loop_def f using p by simp
  have w: "in_window (570 * US_PER_MINUTE) (570 * US_PER_MINUTE + 30000000)"
    by (simp add: in_window_def US_PER_MINUTE_def)
  have k: "(0::nat) < length ?cs" by simp
  have m: "snd (reminder_blocks ! 0) \<in> set (poll reminder_blocks ?cs {} ! 0)"
    unfolding p by simp
  note t = reminder_at_most_once [of reminder_blocks ?cs "{}" "map snd reminder_blocks"
      "540 * US_PER_MINUTE"]
  from t have a: "\<forall>k < length ?cs. \<forall>b \<in> set (poll reminder_blocks ?cs {} ! k).
      (\<exists>dt. (dt, b) \<in> set reminder_blocks \<and> in_window dt (?cs ! k)) \<and>
      block_identifier b \<notin> shown_after reminder_blocks (take k ?cs) {} \<and>
      block_identifier b \<in> shown_after reminder_blocks (take (Suc k) ?cs) {}"
    by (elim conjE)
  from t have b: "\<forall>run. reminder_loop (map snd reminder_blocks) (540 * US_PER_MINUTE) ?cs = Inr run \<longrightarrow>
      distinct (map block_identifier (concat run)) \<and> length run = length ?cs"
    by (elim conjE)
  from a k m have s: "block_identifier (snd (reminder_blocks ! 0)) \<in>
      shown_after reminder_blocks (take (Suc 0) ?cs) {}" by blast
  from b r have d: "distinct (map block_identifier (concat ?run))" by blast
  from r w k m s d show ?thesis by (intro conjI)
qed

end
